theory Spec2Isabelle
  imports Complex_Main "HOL-Library.Word"
begin

section \<open>Data model of the Bitcoin RPC types (internal/rpc/bitcoin/types.go)\<close>

text \<open>
  The Go structs become records. Several structs share field names (\<open>Txid\<close>,
  \<open>Vout\<close>, \<open>Value\<close>, \<open>ScriptPubKey\<close>, \<open>Hash\<close>, ...), so every field carries
  a short prefix for the struct it belongs to: \<open>spk_Address\<close> is
  \<open>ScriptPubKey.Address\<close>, \<open>vin_Vout\<close> is \<open>Vin.Vout\<close>, \<open>tx_Vout\<close> is
  \<open>Transaction.Vout\<close>.

  Machine integers: \<open>int64\<close>, \<open>uint64\<close> and Go's \<open>int\<close> (64 bits on the
  platforms the indexer runs on) are \<open>64 word\<close>, \<open>uint32\<close> is \<open>32 word\<close>.
  A pointer that may be nil is an \<open>option\<close>.

  Amounts: the structs carry \<open>float64\<close> values that come out of the JSON decoder
  (so they are finite), and every use of them in the code is either a comparison
  with zero or a conversion \<open>decimal.NewFromFloat\<close> to an arbitrary-precision
  decimal, which keeps the sign. The model therefore carries, in place of the
  float, the decimal that \<open>decimal.NewFromFloat\<close> reads from it, as a rational
  number; \<open>decimal.Decimal\<close> is a rational as well, with exact \<open>Add\<close> and \<open>Sub\<close>.
\<close>

type_synonym float64 = rat
type_synonym decimal = rat

record ScriptPubKey =
  spk_Asm :: string
  spk_Hex :: string
  spk_ReqSigs :: "64 word"
  spk_Type :: string
  spk_Address :: string
  spk_Addresses :: "string list"

record ScriptSig =
  ssig_Asm :: string
  ssig_Hex :: string

record PrevOut =
  prevout_Value :: float64
  prevout_ScriptPubKey :: ScriptPubKey

record Vin =
  vin_Txid :: string
  vin_Vout :: "32 word"
  vin_ScriptSig :: "ScriptSig option"
  vin_Sequence :: "64 word"
  vin_TxInWitness :: "string list"
  vin_Coinbase :: string
  vin_PrevOut :: "PrevOut option"

record Vout =
  vout_Value :: float64
  vout_N :: "32 word"
  vout_ScriptPubKey :: ScriptPubKey

record Transaction =
  tx_Txid :: string
  tx_Hash :: string
  tx_Version :: "64 word"
  tx_Size :: "64 word"
  tx_Vsize :: "64 word"
  tx_Weight :: "64 word"
  tx_Locktime :: "64 word"
  tx_Vin :: "Vin list"
  tx_Vout :: "Vout list"
  tx_Hex :: string
  tx_BlockHash :: string
  tx_Confirmations :: "64 word"
  tx_Time :: "64 word"
  tx_BlockTime :: "64 word"

record Block =
  blk_Hash :: string
  blk_Confirmations :: "64 word"
  blk_Height :: "64 word"
  blk_Version :: "64 word"
  blk_VersionHex :: string
  blk_MerkleRoot :: string
  blk_Time :: "64 word"
  blk_MedianTime :: "64 word"
  blk_Nonce :: "64 word"
  blk_Bits :: string
  blk_Difficulty :: float64
  blk_ChainWork :: string
  blk_NTx :: "64 word"
  blk_PreviousBlockHash :: string
  blk_NextBlockHash :: string
  blk_StrippedSize :: "64 word"
  blk_Size :: "64 word"
  blk_Weight :: "64 word"
  blk_Tx :: "Transaction list"

section \<open>Address helpers (unnamed/part_001)\<close>

text \<open>
  \<open>ExtractAddresses\<close>: the slice starts nil; the single address is appended when
  it is not the empty string, then the whole \<open>Addresses\<close> slice is appended when
  it has at least one entry.
\<close>

definition ExtractAddresses :: "ScriptPubKey \<Rightarrow> string list" where
  "ExtractAddresses spk =
     (let addresses0 = [];
          addresses1 = (if spk_Address spk \<noteq> '''' then addresses0 @ [spk_Address spk]
                        else addresses0);
          addresses2 = (if length (spk_Addresses spk) > 0 then addresses1 @ spk_Addresses spk
                        else addresses1)
      in addresses2)"

section \<open>Transaction predicates and fee computation (internal/rpc/bitcoin/tx.go, unnamed/part_003)\<close>

text \<open>
  \<open>IsCoinbase\<close> is \<open>len(tx.Vin) > 0 && tx.Vin[0].Coinbase != ""\<close>; the
  short-circuit conjunction guards the index, which the case distinction on the
  list expresses.
\<close>

definition IsCoinbase :: "Transaction \<Rightarrow> bool" where
  "IsCoinbase tx = (case tx_Vin tx of [] \<Rightarrow> False | vin0 # _ \<Rightarrow> vin_Coinbase vin0 \<noteq> '''')"

text \<open>The loop of \<open>HasPrevOutData\<close> returns at the first input that has a prevOut.\<close>

fun HasPrevOutData_loop :: "Vin list \<Rightarrow> bool" where
  "HasPrevOutData_loop [] = False"
| "HasPrevOutData_loop (vin # vins) =
     (if vin_PrevOut vin \<noteq> None then True else HasPrevOutData_loop vins)"

definition HasPrevOutData :: "Transaction \<Rightarrow> bool" where
  "HasPrevOutData tx = (if IsCoinbase tx then False else HasPrevOutData_loop (tx_Vin tx))"

definition CalculateTotalOutput :: "Transaction \<Rightarrow> decimal" where
  "CalculateTotalOutput tx =
     fold (\<lambda>vout total. if vout_Value vout > 0 then total + vout_Value vout else total)
          (tx_Vout tx) 0"

definition CalculateTotalInput :: "Transaction \<Rightarrow> decimal" where
  "CalculateTotalInput tx =
     fold (\<lambda>vin total.
             case vin_PrevOut vin of
               Some p \<Rightarrow> if prevout_Value p > 0 then total + prevout_Value p else total
             | None \<Rightarrow> total)
          (tx_Vin tx) 0"

definition CalculateFee :: "Transaction \<Rightarrow> decimal" where
  "CalculateFee tx =
     (if IsCoinbase tx then 0
      else if \<not> HasPrevOutData tx then 0
      else let totalInput = CalculateTotalInput tx;
               totalOutput = CalculateTotalOutput tx;
               fee = totalInput - totalOutput
           in if fee < 0 then 0 else fee)"

section \<open>Input addresses and grouped outputs (internal/rpc/bitcoin/tx.go)\<close>

text \<open>
  \<open>ExtractInputAddresses\<close> threads two variables through its loops: the set
  \<open>addressSet\<close> (a Go \<open>map[string]bool\<close>, where a missing key reads as false) and
  the slice \<open>addresses\<close>.
\<close>

definition input_address_step ::
  "string \<Rightarrow> (string \<rightharpoonup> bool) \<times> string list \<Rightarrow> (string \<rightharpoonup> bool) \<times> string list" where
  "input_address_step addr st =
     (case st of (addressSet, addresses) \<Rightarrow>
        if \<not> (case addressSet addr of Some b \<Rightarrow> b | None \<Rightarrow> False)
        then (addressSet(addr \<mapsto> True), addresses @ [addr])
        else (addressSet, addresses))"

definition input_vin_step ::
  "Vin \<Rightarrow> (string \<rightharpoonup> bool) \<times> string list \<Rightarrow> (string \<rightharpoonup> bool) \<times> string list" where
  "input_vin_step vin st =
     (if vin_Coinbase vin \<noteq> '''' then st
      else case vin_PrevOut vin of
             Some p \<Rightarrow> fold input_address_step (ExtractAddresses (prevout_ScriptPubKey p)) st
           | None \<Rightarrow> st)"

definition ExtractInputAddresses :: "Transaction \<Rightarrow> string list" where
  "ExtractInputAddresses tx = snd (fold input_vin_step (tx_Vin tx) (Map.empty, []))"

text \<open>
  \<open>GroupOutputsByAddress\<close> builds a Go map from address to the sum of the values
  sent to it: a partial function \<open>string \<rightharpoonup> decimal\<close>.
\<close>

definition group_address_step ::
  "decimal \<Rightarrow> string \<Rightarrow> (string \<rightharpoonup> decimal) \<Rightarrow> (string \<rightharpoonup> decimal)" where
  "group_address_step v addr outputs =
     (case outputs addr of
        Some existing \<Rightarrow> outputs(addr \<mapsto> existing + v)
      | None \<Rightarrow> outputs(addr \<mapsto> v))"

definition group_vout_step :: "Vout \<Rightarrow> (string \<rightharpoonup> decimal) \<Rightarrow> (string \<rightharpoonup> decimal)" where
  "group_vout_step vout outputs =
     (if vout_Value vout \<le> 0 then outputs
      else let addresses = ExtractAddresses (vout_ScriptPubKey vout)
           in if length addresses = 0 then outputs
              else fold (group_address_step (vout_Value vout)) addresses outputs)"

definition GroupOutputsByAddress :: "Transaction \<Rightarrow> (string \<rightharpoonup> decimal)" where
  "GroupOutputsByAddress tx = fold group_vout_step (tx_Vout tx) Map.empty"

section \<open>Transfer extraction (internal/rpc/bitcoin/tx.go)\<close>

text \<open>
  Modelled from the spec: the package \<open>pkg/common/constant\<close> with the constants
  \<open>TxnTypeMining\<close> and \<open>TxnTypeTransfer\<close> is not among the sources; the spec gives
  the emitted type as one of \<open>mining\<close> and \<open>transfer\<close>.
\<close>

datatype TxnType = TxnTypeMining | TxnTypeTransfer

text \<open>
  Modelled from the spec: the struct \<open>types.Transaction\<close> of \<open>pkg/common/types\<close>
  is not among the sources; the record has the fields that \<open>ExtractTransfers\<close>
  sets. \<open>Amount\<close> is a string in the code, always written as
  \<open>d.String()\<close> of a decimal \<open>d\<close>; the model keeps \<open>d\<close> itself.
\<close>

record types_Transaction =
  TxHash :: string
  NetworkId :: string
  BlockNumber :: "64 word"
  FromAddress :: string
  ToAddress :: string
  AssetAddress :: string
  Amount :: decimal
  Type :: TxnType
  TxFee :: decimal
  Timestamp :: "64 word"

text \<open>The decimal digits of a natural number, as \<open>%d\<close> prints them.\<close>

definition digit_char :: "nat \<Rightarrow> char" where
  "digit_char d = ''0123456789'' ! d"

fun show_nat :: "nat \<Rightarrow> string" where
  "show_nat n =
     (if n < 10 then [digit_char n]
      else show_nat (n div 10) @ [digit_char (n mod 10)])"

declare show_nat.simps [simp del]

text \<open>
  A Go \<open>range\<close> over a map visits every entry once, in an order the language
  leaves open. \<open>map_range m es\<close> says that the list \<open>es\<close> is such a visit of
  \<open>m\<close>. \<open>ExtractTransfers\<close> takes the order as an argument \<open>visit\<close>, a function
  from the map to the list of its entries as the loop meets them; the theorems
  hold for every \<open>visit\<close> that is a visit of \<open>outputsByAddress\<close>.
\<close>

definition map_range :: "('k \<rightharpoonup> 'v) \<Rightarrow> ('k \<times> 'v) list \<Rightarrow> bool" where
  "map_range m es \<longleftrightarrow> distinct (map fst es) \<and> map_of es = m"

definition coinbase_transfer ::
  "Transaction \<Rightarrow> string \<Rightarrow> 64 word \<Rightarrow> 64 word \<Rightarrow> Vout \<Rightarrow> string \<Rightarrow> types_Transaction" where
  "coinbase_transfer tx networkID blockNum timestamp vout addr =
     \<lparr>TxHash = tx_Txid tx, NetworkId = networkID, BlockNumber = blockNum,
      FromAddress = ''coinbase'', ToAddress = addr, AssetAddress = '''',
      Amount = vout_Value vout, Type = TxnTypeMining, TxFee = 0,
      Timestamp = timestamp\<rparr>"

definition coinbase_vout_step ::
  "Transaction \<Rightarrow> string \<Rightarrow> 64 word \<Rightarrow> 64 word \<Rightarrow> Vout
     \<Rightarrow> types_Transaction list \<Rightarrow> types_Transaction list" where
  "coinbase_vout_step tx networkID blockNum timestamp vout transfers =
     (if vout_Value vout \<le> 0 then transfers
      else let addresses = ExtractAddresses (vout_ScriptPubKey vout)
           in if length addresses = 0 then transfers
              else fold (\<lambda>addr trs. trs @ [coinbase_transfer tx networkID blockNum timestamp vout addr])
                        addresses transfers)"

text \<open>
  The body of the loop over \<open>outputsByAddress\<close> when input addresses are known.
  The loop state is the slice \<open>transfers\<close> and the flag \<open>feeAssigned\<close>. Both
  branches of the change test set the same type, as in the source.
\<close>

definition regular_step ::
  "Transaction \<Rightarrow> string \<Rightarrow> 64 word \<Rightarrow> 64 word \<Rightarrow> decimal \<Rightarrow> string list \<Rightarrow> string
     \<Rightarrow> string \<times> decimal \<Rightarrow> types_Transaction list \<times> bool \<Rightarrow> types_Transaction list \<times> bool" where
  "regular_step tx networkID blockNum timestamp fee inputAddresses fromAddr e st =
     (case (e, st) of ((addr, v), (transfers, feeAssigned)) \<Rightarrow>
        let isChange = (addr \<in> set inputAddresses);
            txType = (if isChange then TxnTypeTransfer else TxnTypeTransfer);
            tr = \<lparr>TxHash = tx_Txid tx, NetworkId = networkID, BlockNumber = blockNum,
                  FromAddress = fromAddr, ToAddress = addr, AssetAddress = '''',
                  Amount = v, Type = txType, TxFee = 0, Timestamp = timestamp\<rparr>
        in if \<not> feeAssigned \<and> \<not> isChange \<and> fee \<noteq> 0
           then (transfers @ [tr\<lparr>TxFee := fee\<rparr>], True)
           else (transfers @ [tr], feeAssigned))"

text \<open>The body of the fallback loop, when no input address is known.\<close>

definition fallback_step ::
  "Transaction \<Rightarrow> string \<Rightarrow> 64 word \<Rightarrow> 64 word \<Rightarrow> decimal
     \<Rightarrow> string \<times> decimal \<Rightarrow> types_Transaction list \<times> bool \<Rightarrow> types_Transaction list \<times> bool" where
  "fallback_step tx networkID blockNum timestamp fee e st =
     (case (e, st) of ((addr, v), (transfers, feeAssigned)) \<Rightarrow>
        let tr = \<lparr>TxHash = tx_Txid tx, NetworkId = networkID, BlockNumber = blockNum,
                  FromAddress = '''', ToAddress = addr, AssetAddress = '''',
                  Amount = v, Type = TxnTypeTransfer, TxFee = 0, Timestamp = timestamp\<rparr>
        in if \<not> feeAssigned \<and> fee \<noteq> 0
           then (transfers @ [tr\<lparr>TxFee := fee\<rparr>], True)
           else (transfers @ [tr], feeAssigned))"

text \<open>
  \<open>ExtractTransfers\<close>. The last argument \<open>visit\<close> gives the order in which the
  \<open>range\<close> loops visit \<open>outputsByAddress\<close>; the coinbase path does not read it.
  With input addresses \<open>first # rest\<close> the sender is \<open>first\<close> when \<open>rest\<close> is
  empty and \<open>Sprintf("%s+%d_more", first, len(inputAddresses)-1)\<close> otherwise. The
  total of the input values that the source adds up in this branch is never read
  and is left out.
\<close>

definition ExtractTransfers ::
  "Transaction \<Rightarrow> string \<Rightarrow> 64 word \<Rightarrow> 64 word \<Rightarrow> decimal
     \<Rightarrow> ((string \<rightharpoonup> decimal) \<Rightarrow> (string \<times> decimal) list)
     \<Rightarrow> types_Transaction list" where
  "ExtractTransfers tx networkID blockNum timestamp fee visit =
     (if IsCoinbase tx
      then fold (coinbase_vout_step tx networkID blockNum timestamp) (tx_Vout tx) []
      else let inputAddresses = ExtractInputAddresses tx;
               outputsByAddress = GroupOutputsByAddress tx
           in case inputAddresses of
                first # rest \<Rightarrow>
                  let fromAddr = (if length inputAddresses > 1
                                  then first @ ''+'' @ show_nat (length inputAddresses - 1) @ ''_more''
                                  else first)
                  in fst (fold (regular_step tx networkID blockNum timestamp fee inputAddresses fromAddr)
                               (visit outputsByAddress) ([], False))
              | [] \<Rightarrow>
                  fst (fold (fallback_step tx networkID blockNum timestamp fee)
                            (visit outputsByAddress) ([], False)))"

section \<open>Bech32 address validation (unnamed/part_001)\<close>

definition MainnetBech32HRP :: string where
  "MainnetBech32HRP = ''bc''"

definition TestnetBech32HRP :: string where
  "TestnetBech32HRP = ''tb''"

text \<open>
  \<open>IsValidBech32Address\<close> calls two functions of the library
  \<open>github.com/btcsuite/btcutil/bech32\<close>, which is not part of this repository:
  \<open>bech32.Decode\<close>, which returns the human-readable part and the payload as
  5-bit symbols or an error, and \<open>bech32.ConvertBits(data, fromBits, toBits, pad)\<close>,
  which regroups bits or returns an error. Both are parameters of the model
  (\<open>Decode\<close> and \<open>ConvertBits\<close>), with the error as the left summand. The test
  \<open>len(data) == 0\<close> guards \<open>data[1:]\<close> and \<open>data[0]\<close>; the case distinction on the
  list expresses it.
\<close>

definition IsValidBech32Address ::
  "(string \<Rightarrow> 'e + string \<times> 8 word list)
     \<Rightarrow> (8 word list \<Rightarrow> 8 word \<Rightarrow> 8 word \<Rightarrow> bool \<Rightarrow> 'e + 8 word list)
     \<Rightarrow> string \<Rightarrow> bool \<Rightarrow> bool" where
  "IsValidBech32Address Decode ConvertBits addr isTestnet =
     (let expectedHRP = (if isTestnet then TestnetBech32HRP else MainnetBech32HRP)
      in case Decode addr of
           Inl err \<Rightarrow> False
         | Inr (hrp, data) \<Rightarrow>
             if hrp \<noteq> expectedHRP then False
             else case data of
                    [] \<Rightarrow> False
                  | witnessVersion # rest \<Rightarrow>
                      (case ConvertBits rest 5 8 False of
                         Inl err \<Rightarrow> False
                       | Inr witnessProgram \<Rightarrow>
                           if witnessVersion = 0 \<and> length witnessProgram \<noteq> 20
                                \<and> length witnessProgram \<noteq> 32 then False
                           else if witnessVersion = 1 \<and> length witnessProgram \<noteq> 32 then False
                           else True))"

section \<open>The Bitcoin RPC client (unnamed/part_002)\<close>

text \<open>
  The client's \<open>CallRPC\<close> belongs to \<open>rpc.BaseClient\<close>, which is not among the
  sources. It is a parameter of the model: a function from the method name and
  the parameter list to an error or a raw result, threading a state \<open>'s\<close> that
  stands for everything the answer may depend on (the node, the network, the
  rate limiter). \<open>json.Unmarshal\<close> into a block is the parameter \<open>unmarshal\<close>.
\<close>

datatype rpc_param = PString string | PInt int | PUint64 "64 word"

type_synonym ('s, 'e, 'r) call_rpc = "string \<Rightarrow> rpc_param list \<Rightarrow> 's \<Rightarrow> ('e + 'r) \<times> 's"

text \<open>
  A Go error value of the client: an error passed on from \<open>CallRPC\<close>, or
  \<open>fmt.Errorf(prefix + ": %w", err)\<close> around a decoding error.
\<close>

datatype 'e rpc_error = Passed 'e | Wrapped string 'e

definition GetBlockHash ::
  "('s, 'e, 'r) call_rpc \<Rightarrow> ('r \<Rightarrow> 'e + string) \<Rightarrow> 64 word \<Rightarrow> 's \<Rightarrow> ('e rpc_error + string) \<times> 's" where
  "GetBlockHash CallRPC unmarshal height s =
     (case CallRPC ''getblockhash'' [PUint64 height] s of
        (Inl err, s') \<Rightarrow> (Inl (Passed err), s')
      | (Inr resp, s') \<Rightarrow>
          (case unmarshal resp of
             Inl err \<Rightarrow> (Inl (Wrapped ''decode getblockhash'' err), s')
           | Inr hash \<Rightarrow> (Inr hash, s')))"

definition GetBlockVerbose ::
  "('s, 'e, 'r) call_rpc \<Rightarrow> ('r \<Rightarrow> 'e + Block) \<Rightarrow> string \<Rightarrow> 's \<Rightarrow> ('e rpc_error + Block) \<times> 's" where
  "GetBlockVerbose CallRPC unmarshal hash s =
     (case CallRPC ''getblock'' [PString hash, PInt 2] s of
        (Inl err, s') \<Rightarrow> (Inl (Passed err), s')
      | (Inr resp, s') \<Rightarrow>
          (case unmarshal resp of
             Inl err \<Rightarrow> (Inl (Wrapped ''decode getblock'' err), s')
           | Inr blk \<Rightarrow> (Inr blk, s')))"

text \<open>
  \<open>GetBlockWithPrevOut\<close>: when the call with verbosity 3 fails, the source logs
  the error and returns \<open>c.GetBlockVerbose(ctx, hash)\<close>.
\<close>

definition GetBlockWithPrevOut ::
  "('s, 'e, 'r) call_rpc \<Rightarrow> ('r \<Rightarrow> 'e + Block) \<Rightarrow> string \<Rightarrow> 's \<Rightarrow> ('e rpc_error + Block) \<times> 's" where
  "GetBlockWithPrevOut CallRPC unmarshal hash s =
     (case CallRPC ''getblock'' [PString hash, PInt 3] s of
        (Inl err, s') \<Rightarrow> GetBlockVerbose CallRPC unmarshal hash s'
      | (Inr resp, s') \<Rightarrow>
          (case unmarshal resp of
             Inl err \<Rightarrow> (Inl (Wrapped ''decode getblock'' err), s')
           | Inr blk \<Rightarrow> (Inr blk, s')))"

text \<open>
  The operation that the orchestrator's \<open>GetBlock\<close> hands to
  \<open>failover.ExecuteWithRetry\<close> (internal/indexer/bitcoin.go): the hash, then
  \<open>GetBlockWithPrevOut\<close>, and \<open>GetBlockVerbose\<close> when that returned an error.
\<close>

definition GetBlock_op ::
  "('s, 'e, 'r) call_rpc \<Rightarrow> ('r \<Rightarrow> 'e + string) \<Rightarrow> ('r \<Rightarrow> 'e + Block) \<Rightarrow> 64 word \<Rightarrow> 's
     \<Rightarrow> ('e rpc_error + Block) \<times> 's" where
  "GetBlock_op CallRPC unmarshal_hash unmarshal number s =
     (case GetBlockHash CallRPC unmarshal_hash number s of
        (Inl err, s1) \<Rightarrow> (Inl err, s1)
      | (Inr hash, s1) \<Rightarrow>
          (case GetBlockWithPrevOut CallRPC unmarshal hash s1 of
             (Inr bb, s2) \<Rightarrow> (Inr bb, s2)
           | (Inl err, s2) \<Rightarrow> GetBlockVerbose CallRPC unmarshal hash s2))"

text \<open>
  A client that records its calls: the state is the list of calls made so far
  together with the state of the underlying \<open>CallRPC\<close>.
\<close>

definition recording ::
  "('s, 'e, 'r) call_rpc \<Rightarrow> ((string \<times> rpc_param list) list \<times> 's, 'e, 'r) call_rpc" where
  "recording CallRPC method params st =
     (case st of (calls, s) \<Rightarrow>
        case CallRPC method params s of (res, s') \<Rightarrow> (res, (calls @ [(method, params)], s')))"

subsection \<open>EnrichBlockWithPrevOuts\<close>

text \<open>
  \<open>EnrichBlockWithPrevOuts\<close> starts one goroutine per transaction that is
  neither coinbase nor already carrying prevOut data, and waits for all of them.
  Each goroutine writes only to the inputs of its own transaction, and each
  input makes at most one call \<open>GetRawTransaction(ctx, vin.Txid, 1)\<close>. The
  outcome of the call made for input \<open>j\<close> of transaction \<open>i\<close> is the parameter
  \<open>fetch i j txid\<close> (an error or the previous transaction), so the model covers
  every schedule of the goroutines and nodes whose answers change over time;
  with the outcomes fixed, the goroutines can be run one after the other.

  A slice index out of range is a run-time panic in Go. The index expression
  \<open>prevTx.Vout[vin.Vout]\<close> is \<open>index_Vout\<close>, which yields \<open>None\<close> out of range, and
  the model turns that into the failure \<open>PanicIndexOutOfRange\<close>. The function
  returns the failure \<open>ErrBlockIsNil\<close> for a nil block; otherwise the result is
  the block as the function leaves it when it returns nil. The conversion
  \<open>int(vin.Vout)\<close> of a \<open>uint32\<close> to the 64-bit \<open>int\<close> is \<open>unat\<close>.
\<close>

datatype enrich_failure = ErrBlockIsNil | PanicIndexOutOfRange

definition index_Vout :: "Vout list \<Rightarrow> nat \<Rightarrow> Vout option" where
  "index_Vout vouts i = (if i < length vouts then Some (vouts ! i) else None)"

definition enrich_vin :: "(string \<Rightarrow> 'e + Transaction) \<Rightarrow> Vin \<Rightarrow> enrich_failure + Vin" where
  "enrich_vin getRawTransaction vin =
     (if vin_Txid vin = '''' \<or> vin_Coinbase vin \<noteq> '''' then Inr vin
      else case getRawTransaction (vin_Txid vin) of
             Inl err \<Rightarrow> Inr vin
           | Inr prevTx \<Rightarrow>
               if unat (vin_Vout vin) < length (tx_Vout prevTx)
               then (case index_Vout (tx_Vout prevTx) (unat (vin_Vout vin)) of
                       None \<Rightarrow> Inl PanicIndexOutOfRange
                     | Some prevOut \<Rightarrow>
                         Inr (vin\<lparr>vin_PrevOut :=
                                Some \<lparr>prevout_Value = vout_Value prevOut,
                                      prevout_ScriptPubKey = vout_ScriptPubKey prevOut\<rparr>\<rparr>))
               else Inr vin)"

fun enrich_vins ::
  "(nat \<Rightarrow> string \<Rightarrow> 'e + Transaction) \<Rightarrow> nat \<Rightarrow> Vin list \<Rightarrow> enrich_failure + Vin list" where
  "enrich_vins fetch_i j [] = Inr []"
| "enrich_vins fetch_i j (vin # vins) =
     (case enrich_vin (fetch_i j) vin of
        Inl p \<Rightarrow> Inl p
      | Inr vin' \<Rightarrow>
          (case enrich_vins fetch_i (Suc j) vins of
             Inl p \<Rightarrow> Inl p
           | Inr vins' \<Rightarrow> Inr (vin' # vins')))"

definition enrich_tx ::
  "(nat \<Rightarrow> string \<Rightarrow> 'e + Transaction) \<Rightarrow> Transaction \<Rightarrow> enrich_failure + Transaction" where
  "enrich_tx fetch_i tx =
     (if IsCoinbase tx then Inr tx
      else if HasPrevOutData tx then Inr tx
      else case enrich_vins fetch_i 0 (tx_Vin tx) of
             Inl p \<Rightarrow> Inl p
           | Inr vins' \<Rightarrow> Inr (tx\<lparr>tx_Vin := vins'\<rparr>))"

fun enrich_txs ::
  "(nat \<Rightarrow> nat \<Rightarrow> string \<Rightarrow> 'e + Transaction) \<Rightarrow> nat \<Rightarrow> Transaction list
     \<Rightarrow> enrich_failure + Transaction list" where
  "enrich_txs fetch i [] = Inr []"
| "enrich_txs fetch i (tx # txs) =
     (case enrich_tx (fetch i) tx of
        Inl p \<Rightarrow> Inl p
      | Inr tx' \<Rightarrow>
          (case enrich_txs fetch (Suc i) txs of
             Inl p \<Rightarrow> Inl p
           | Inr txs' \<Rightarrow> Inr (tx' # txs')))"

definition EnrichBlockWithPrevOuts ::
  "(nat \<Rightarrow> nat \<Rightarrow> string \<Rightarrow> 'e + Transaction) \<Rightarrow> Block option \<Rightarrow> enrich_failure + Block" where
  "EnrichBlockWithPrevOuts fetch block =
     (case block of
        None \<Rightarrow> Inl ErrBlockIsNil
      | Some b \<Rightarrow>
          (case enrich_txs fetch 0 (blk_Tx b) of
             Inl p \<Rightarrow> Inl p
           | Inr txs' \<Rightarrow> Inr (b\<lparr>blk_Tx := txs'\<rparr>)))"

section \<open>The indexer's block ranges (internal/indexer/bitcoin.go)\<close>

text \<open>
  Modelled from the spec: \<open>BlockResult\<close>, \<open>Error\<close> and \<open>ErrorTypeUnknown\<close> of the
  indexer package are not among the sources; the spec gives \<open>BlockResult\<close> as
  \<open>{Number: u64, Block: *Block, Error: *{ErrorType, Message}}\<close>. The normalised
  block type \<open>types.Block\<close> is the type variable \<open>'blk\<close>.
\<close>

datatype ErrorType = ErrorTypeUnknown

record Error =
  ErrorType :: ErrorType
  Message :: string

record 'blk BlockResult =
  Number :: "64 word"
  Block :: "'blk option"
  Error :: "Error option"

text \<open>
  The errors that \<open>GetBlocks\<close> and \<open>GetBlocksByNumbers\<close> return: one made by
  \<open>fmt.Errorf\<close>, or the context's error \<open>ctx.Err()\<close>.
\<close>

datatype 'c indexer_error = Errorf string | CtxErr 'c

text \<open>
  What the Go run time does on an allocation is not part of the repository; the
  model takes it as the parameter \<open>rt\<close>, for a 64-bit platform:
  \<^item> \<open>maxAlloc\<close>, the largest size in bytes that the run time accepts for one
    object; a slice whose backing array would be larger, or whose size in bytes
    does not fit in 64 bits, makes \<open>make\<close> panic with \<open>makeslice: cap out of
    range\<close> and \<open>append\<close> panic with \<open>growslice: len out of range\<close>;
  \<^item> \<open>mallocgc_ok\<close>, which says whether the allocator can serve a request of
    the given number of bytes; when it cannot, the process dies with the fatal
    error \<open>out of memory\<close>;
  \<^item> \<open>nextslicecap\<close>, the capacity the run time chooses when \<open>append\<close> has to
    grow a slice of the given capacity to hold the given number of elements.
  A slice of \<open>uint64\<close> is the list of its elements together with its capacity;
  an element takes 8 bytes.
\<close>

record go_runtime =
  maxAlloc :: nat
  mallocgc_ok :: "nat \<Rightarrow> bool"
  nextslicecap :: "nat \<Rightarrow> nat \<Rightarrow> nat"

datatype crash =
    PanicMakesliceCap
  | PanicMakesliceLen
  | PanicMakechanSize
  | PanicGrowsliceLen
  | FatalOutOfMemory

type_synonym uint64_slice = "64 word list \<times> nat"

text \<open>\<open>make([]uint64, 0, cap)\<close> with a capacity of type \<open>uint64\<close>.\<close>

definition make_uint64_slice :: "go_runtime \<Rightarrow> 64 word \<Rightarrow> crash + uint64_slice" where
  "make_uint64_slice rt cap =
     (let mem = 8 * unat cap
      in if 2 ^ 64 \<le> mem \<or> maxAlloc rt < mem then Inl PanicMakesliceCap
         else if mem \<noteq> 0 \<and> \<not> mallocgc_ok rt mem then Inl FatalOutOfMemory
         else Inr ([], unat cap))"

text \<open>\<open>append(nums, n)\<close>: in place while the capacity lasts, a new array otherwise.\<close>

definition append_uint64 :: "go_runtime \<Rightarrow> uint64_slice \<Rightarrow> 64 word \<Rightarrow> crash + uint64_slice" where
  "append_uint64 rt nums n =
     (case nums of (elems, cap) \<Rightarrow>
        if length elems < cap then Inr (elems @ [n], cap)
        else let newcap = nextslicecap rt cap (length elems + 1);
                 capmem = 8 * newcap
             in if 2 ^ 64 \<le> capmem \<or> maxAlloc rt < capmem then Inl PanicGrowsliceLen
                else if \<not> mallocgc_ok rt capmem then Inl FatalOutOfMemory
                else Inr (elems @ [n], newcap))"

text \<open>
  \<open>GetBlocksByNumbers\<close> returns \<open>nil, nil\<close> for an empty list. Otherwise it
  allocates the result slice \<open>make([]BlockResult, len(nums))\<close>, the channel
  \<open>make(chan job, workers*2)\<close> and the workers; the sizes depend on the layout of
  \<open>BlockResult\<close> and on the configuration, which are not among the sources, so the
  outcome of these allocations for a list of the given length is the parameter
  \<open>pool_alloc\<close> (\<open>None\<close> when they succeed). Then the pool of workers calls
  \<open>GetBlock\<close> for the heights and writes each result into the slot of its
  height; the model takes the outcome of the call for slot \<open>i\<close> as the parameter
  \<open>getBlock i n\<close> (the error's message or the block) and the value of \<open>ctx.Err()\<close>
  after all workers are done as the parameter \<open>ctxErr\<close>. When the context has
  no error it was never cancelled, so every height was dispatched and every
  slot was written. A nil slice is \<open>None\<close>. The result is a crash of the run
  time (\<open>Inl\<close>) or the pair that the function returns (\<open>Inr\<close>).
\<close>

definition block_result :: "(nat \<Rightarrow> 64 word \<Rightarrow> string + 'blk) \<Rightarrow> nat \<Rightarrow> 64 word \<Rightarrow> 'blk BlockResult" where
  "block_result getBlock i n =
     (case getBlock i n of
        Inl msg \<Rightarrow> \<lparr>Number = n, Block = None,
                     Error = Some \<lparr>ErrorType = ErrorTypeUnknown, Message = msg\<rparr>\<rparr>
      | Inr blk \<Rightarrow> \<lparr>Number = n, Block = Some blk, Error = None\<rparr>)"

fun firstErr_loop :: "'blk BlockResult list \<Rightarrow> 'c indexer_error option" where
  "firstErr_loop [] = None"
| "firstErr_loop (r # rs) =
     (case Error r of
        Some e \<Rightarrow> Some (Errorf (''block '' @ show_nat (unat (Number r)) @ '': '' @ Message e))
      | None \<Rightarrow> firstErr_loop rs)"

definition GetBlocksByNumbers ::
  "(nat \<Rightarrow> crash option) \<Rightarrow> (nat \<Rightarrow> 64 word \<Rightarrow> string + 'blk) \<Rightarrow> 'c option \<Rightarrow> 64 word list
     \<Rightarrow> crash + 'blk BlockResult list option \<times> 'c indexer_error option" where
  "GetBlocksByNumbers pool_alloc getBlock ctxErr nums =
     (if length nums = 0 then Inr (None, None)
      else case pool_alloc (length nums) of
             Some c \<Rightarrow> Inl c
           | None \<Rightarrow>
               (case ctxErr of
                  Some c \<Rightarrow> Inr (None, Some (CtxErr c))
                | None \<Rightarrow>
                    let blocks = map (\<lambda>(i, n). block_result getBlock i n) (enumerate 0 nums)
                    in Inr (Some blocks, firstErr_loop blocks)))"

text \<open>
  The loop \<open>for n := from; n <= to; n++ { nums = append(nums, n) }\<close> of \<open>GetBlocks\<close>
  over \<open>uint64\<close>, where \<open>n++\<close> wraps around. The loop need not terminate, so it is
  a partial function: \<open>None\<close> stands for a run that never leaves the loop. A run
  that ends does so with a crash inside \<open>append\<close> or with the slice.
\<close>

partial_function (option) GetBlocks_loop ::
  "go_runtime \<Rightarrow> 64 word \<Rightarrow> 64 word \<Rightarrow> uint64_slice \<Rightarrow> (crash + uint64_slice) option" where
  "GetBlocks_loop rt n to nums =
     (if n \<le> to
      then (case append_uint64 rt nums n of
              Inl c \<Rightarrow> Some (Inl c)
            | Inr nums' \<Rightarrow> GetBlocks_loop rt (n + 1) to nums')
      else Some (Inr nums))"

text \<open>
  \<open>GetBlocks\<close>: the range test, \<open>nums := make([]uint64, 0, to-from+1)\<close> (the
  capacity is computed in \<open>uint64\<close> and wraps around), the loop, and the call of
  \<open>GetBlocksByNumbers\<close>. The result is \<open>None\<close> when the call never returns,
  \<open>Some (Inl c)\<close> when it ends in the crash \<open>c\<close>, and \<open>Some (Inr r)\<close> when it
  returns \<open>r\<close>.
\<close>

definition GetBlocks ::
  "go_runtime \<Rightarrow> (nat \<Rightarrow> crash option) \<Rightarrow> (nat \<Rightarrow> 64 word \<Rightarrow> string + 'blk) \<Rightarrow> 'c option
     \<Rightarrow> 64 word \<Rightarrow> 64 word
     \<Rightarrow> (crash + 'blk BlockResult list option \<times> 'c indexer_error option) option" where
  "GetBlocks rt pool_alloc getBlock ctxErr from to =
     (if to < from then Some (Inr (None, Some (Errorf ''invalid range'')))
      else case make_uint64_slice rt (to - from + 1) of
             Inl c \<Rightarrow> Some (Inl c)
           | Inr nums0 \<Rightarrow>
               (case GetBlocks_loop rt from to nums0 of
                  None \<Rightarrow> None
                | Some (Inl c) \<Rightarrow> Some (Inl c)
                | Some (Inr nums) \<Rightarrow>
                    Some (GetBlocksByNumbers pool_alloc getBlock ctxErr (fst nums))))"

section \<open>Example data\<close>

text \<open>Small concrete values on which the theorems below are instantiated.\<close>

definition example_spk :: "string \<Rightarrow> string list \<Rightarrow> ScriptPubKey" where
  "example_spk a as =
     \<lparr>spk_Asm = '''', spk_Hex = '''', spk_ReqSigs = 0, spk_Type = '''',
      spk_Address = a, spk_Addresses = as\<rparr>"

definition example_vout :: "float64 \<Rightarrow> 32 word \<Rightarrow> ScriptPubKey \<Rightarrow> Vout" where
  "example_vout v n spk = \<lparr>vout_Value = v, vout_N = n, vout_ScriptPubKey = spk\<rparr>"

definition example_vin :: "string \<Rightarrow> 32 word \<Rightarrow> string \<Rightarrow> PrevOut option \<Rightarrow> Vin" where
  "example_vin txid n cb prev =
     \<lparr>vin_Txid = txid, vin_Vout = n, vin_ScriptSig = None, vin_Sequence = 0,
      vin_TxInWitness = [], vin_Coinbase = cb, vin_PrevOut = prev\<rparr>"

definition example_tx :: "string \<Rightarrow> Vin list \<Rightarrow> Vout list \<Rightarrow> Transaction" where
  "example_tx txid vins vouts =
     \<lparr>tx_Txid = txid, tx_Hash = txid, tx_Version = 2, tx_Size = 0, tx_Vsize = 0, tx_Weight = 0,
      tx_Locktime = 0, tx_Vin = vins, tx_Vout = vouts, tx_Hex = '''', tx_BlockHash = '''',
      tx_Confirmations = 0, tx_Time = 0, tx_BlockTime = 0\<rparr>"

text \<open>One input worth 1 from address A; 0.3 goes to B and 0.69 back to A.\<close>

definition spend_tx :: Transaction where
  "spend_tx = example_tx ''t1''
     [example_vin ''t0'' 0 ''''
        (Some \<lparr>prevout_Value = 1, prevout_ScriptPubKey = example_spk ''A'' []\<rparr>)]
     [example_vout (3/10) 0 (example_spk ''B'' []),
      example_vout (69/100) 1 (example_spk ''A'' [])]"

text \<open>
  A coinbase transaction with a reward output, an output of value zero and an
  output that names two addresses.
\<close>

definition coinbase_tx :: Transaction where
  "coinbase_tx = example_tx ''c1''
     [example_vin '''' 0 ''04ffff001d'' None]
     [example_vout (25/4) 0 (example_spk ''M'' []),
      example_vout 0 1 (example_spk ''Z'' []),
      example_vout 1 2 (example_spk ''A'' [''B''])]"

text \<open>Two inputs, of which only the first carries its previous output.\<close>

definition partial_tx :: Transaction where
  "partial_tx = example_tx ''t2''
     [example_vin ''t0'' 0 ''''
        (Some \<lparr>prevout_Value = 2, prevout_ScriptPubKey = example_spk ''A'' []\<rparr>),
      example_vin ''t9'' 1 '''' None]
     [example_vout 1 0 (example_spk ''B'' [])]"

text \<open>A spend whose only output is a legacy multisig output naming B and C.\<close>

definition multisig_tx :: Transaction where
  "multisig_tx = example_tx ''t3''
     [example_vin ''t0'' 0 ''''
        (Some \<lparr>prevout_Value = 2, prevout_ScriptPubKey = example_spk ''A'' []\<rparr>)]
     [example_vout 1 0 (example_spk '''' [''B'', ''C''])]"

text \<open>A consolidation: the only output goes back to the input address A.\<close>

definition self_tx :: Transaction where
  "self_tx = example_tx ''t4''
     [example_vin ''t0'' 0 ''''
        (Some \<lparr>prevout_Value = 1, prevout_ScriptPubKey = example_spk ''A'' []\<rparr>)]
     [example_vout (99/100) 0 (example_spk ''A'' [])]"

text \<open>
  A block for the enrichment: a coinbase transaction, a transaction that already
  carries a prevOut, and a transaction with three unresolved inputs. The
  previous transaction \<open>t0\<close> has one output, so the second input's index 5 is out
  of range; the third input's previous transaction cannot be fetched.
\<close>

definition prev_tx :: Transaction where
  "prev_tx = example_tx ''t0'' [] [example_vout 2 0 (example_spk ''A'' [])]"

definition unresolved_tx :: Transaction where
  "unresolved_tx = example_tx ''t5''
     [example_vin ''t0'' 0 '''' None,
      example_vin ''t0'' 5 '''' None,
      example_vin ''gone'' 0 '''' None]
     [example_vout 1 0 (example_spk ''B'' [])]"

definition example_fetch :: "nat \<Rightarrow> nat \<Rightarrow> string \<Rightarrow> string + Transaction" where
  "example_fetch i j txid =
     (if txid = ''t0'' then Inr prev_tx else Inl ''No such mempool or blockchain transaction'')"

definition example_block :: Block where
  "example_block =
     \<lparr>blk_Hash = ''h'', blk_Confirmations = 1, blk_Height = 7, blk_Version = 1,
      blk_VersionHex = ''00000001'', blk_MerkleRoot = ''m'', blk_Time = 9, blk_MedianTime = 8,
      blk_Nonce = 0, blk_Bits = ''1d00ffff'', blk_Difficulty = 1, blk_ChainWork = ''w'',
      blk_NTx = 3, blk_PreviousBlockHash = ''g'', blk_NextBlockHash = '''',
      blk_StrippedSize = 0, blk_Size = 0, blk_Weight = 0,
      blk_Tx = [coinbase_tx, spend_tx, unresolved_tx]\<rparr>"

text \<open>
  A node that does not know verbosity 3, and a node whose first two \<open>getblock\<close>
  calls fail (its state counts the \<open>getblock\<close> calls).
\<close>

definition old_node :: "(unit, string, string) call_rpc" where
  "old_node method params s =
     (if method = ''getblock'' \<and> params = [PString ''h'', PInt 3]
      then (Inl ''RPC error -8: verbosity 3 not supported'', s)
      else (Inr ''raw'', s))"

definition flaky_node :: "(nat, string, string) call_rpc" where
  "flaky_node method params k =
     (if method = ''getblockhash'' then (Inr ''raw hash'', k)
      else if k < 2 then (Inl ''timeout'', Suc k)
      else (Inr ''raw'', Suc k))"

text \<open>
  A run time that accepts objects of up to \<open>2^48\<close> bytes, whose allocator can
  serve up to \<open>2^32\<close> bytes, and that doubles the capacity of a growing slice.
\<close>

definition example_runtime :: go_runtime where
  "example_runtime =
     \<lparr>maxAlloc = 2 ^ 48, mallocgc_ok = (\<lambda>mem. mem \<le> 2 ^ 32),
      nextslicecap = (\<lambda>oldcap needed. max needed (2 * oldcap))\<rparr>"

lemmas example_defs = example_spk_def example_vout_def example_vin_def example_tx_def
  spend_tx_def coinbase_tx_def partial_tx_def multisig_tx_def self_tx_def
  prev_tx_def unresolved_tx_def

section \<open>Auxiliary definitions for the proofs\<close>

text \<open>
  The record that the two loops over \<open>outputsByAddress\<close> append for the entry \<open>e\<close>,
  with sender \<open>fromAddr\<close> and fee field \<open>f\<close>.
\<close>

definition emitted ::
  "Transaction \<Rightarrow> string \<Rightarrow> 64 word \<Rightarrow> 64 word \<Rightarrow> string \<Rightarrow> decimal \<Rightarrow> string \<times> decimal
     \<Rightarrow> types_Transaction" where
  "emitted tx nid bn ts fromAddr f e =
     \<lparr>TxHash = tx_Txid tx, NetworkId = nid, BlockNumber = bn,
      FromAddress = fromAddr, ToAddress = fst e, AssetAddress = '''',
      Amount = snd e, Type = TxnTypeTransfer, TxFee = f, Timestamp = ts\<rparr>"

text \<open>The sum of the values stored in a finite map.\<close>

definition map_total :: "(string \<rightharpoonup> decimal) \<Rightarrow> decimal" where
  "map_total m = (\<Sum>k \<in> dom m. the (m k))"

section \<open>ExtractAddresses\<close>

lemma ExtractAddresses_eq:
  "ExtractAddresses spk =
     (if spk_Address spk = '''' then [] else [spk_Address spk]) @ spk_Addresses spk"
  by (simp add: ExtractAddresses_def Let_def)

text \<open>
  Claim C6, as stated: the result is \<open>[spk.Address] ++ spk.Addresses\<close> with the
  empty strings skipped. The code tests only the single \<open>Address\<close> field for
  emptiness; the entries of \<open>Addresses\<close> are appended as they are. For a script
  whose \<open>Addresses\<close> list holds an empty string the result keeps it.
\<close>

theorem ExtractAddresses_keeps_empty_entries_counterexample:
  "ExtractAddresses (example_spk '''' ['''', ''A''])
     \<noteq> filter (\<lambda>a. a \<noteq> '''') ([spk_Address (example_spk '''' ['''', ''A''])]
                                     @ spk_Addresses (example_spk '''' ['''', ''A'']))"
  by (simp add: ExtractAddresses_eq example_spk_def)

text \<open>
  Claim C6, amended: \<open>ExtractAddresses spk\<close> is \<open>[spk.Address] ++ spk.Addresses\<close>
  with \<open>spk.Address\<close> skipped when it is the empty string; the entries of
  \<open>spk.Addresses\<close> are all kept, in their order. When no entry of
  \<open>spk.Addresses\<close> is empty this is the concatenation with the empty strings
  skipped.
\<close>

theorem ExtractAddresses_skips_empty_Address:
  "ExtractAddresses spk = filter (\<lambda>a. a \<noteq> '''') [spk_Address spk] @ spk_Addresses spk
   \<and> ((\<forall>a \<in> set (spk_Addresses spk). a \<noteq> '''') \<longrightarrow>
        ExtractAddresses spk = filter (\<lambda>a. a \<noteq> '''') (spk_Address spk # spk_Addresses spk))"
  by (simp add: ExtractAddresses_eq filter_id_conv)

theorem ExtractAddresses_skips_empty_Address_witness:
  "ExtractAddresses (example_spk '''' [''B'', ''C'']) = [''B'', ''C'']
   \<and> ExtractAddresses (example_spk ''A'' [''B'']) = [''A'', ''B'']"
  using ExtractAddresses_skips_empty_Address [of "example_spk '''' [''B'', ''C'']"]
        ExtractAddresses_skips_empty_Address [of "example_spk ''A'' [''B'']"]
  by (simp add: example_spk_def)

section \<open>CalculateFee\<close>

lemma fold_add_cond:
  "fold (\<lambda>x total. if P x then total + f x else total) xs (a::rat)
     = a + sum_list (map (\<lambda>x. if P x then f x else 0) xs)"
  by (induction xs arbitrary: a) (simp_all add: add.assoc)

lemma CalculateTotalOutput_sum:
  "CalculateTotalOutput tx =
     (\<Sum>vout \<leftarrow> tx_Vout tx. if vout_Value vout > 0 then vout_Value vout else 0)"
  by (simp add: CalculateTotalOutput_def fold_add_cond)

lemma fold_prevout_values:
  "fold (\<lambda>vin total. case vin_PrevOut vin of
               Some p \<Rightarrow> if prevout_Value p > 0 then total + prevout_Value p else total
             | None \<Rightarrow> total) xs (a::rat)
     = a + sum_list (map (\<lambda>vin. case vin_PrevOut vin of
                            Some p \<Rightarrow> if prevout_Value p > 0 then prevout_Value p else 0
                          | None \<Rightarrow> 0) xs)"
  by (induction xs arbitrary: a) (simp_all add: add.assoc split: option.splits)

lemma CalculateTotalInput_sum:
  "CalculateTotalInput tx =
     (\<Sum>vin \<leftarrow> tx_Vin tx. case vin_PrevOut vin of
                              Some p \<Rightarrow> if prevout_Value p > 0 then prevout_Value p else 0
                            | None \<Rightarrow> 0)"
  by (simp add: CalculateTotalInput_def fold_prevout_values)

lemma HasPrevOutData_loop_iff:
  "HasPrevOutData_loop vins \<longleftrightarrow> (\<exists>vin \<in> set vins. vin_PrevOut vin \<noteq> None)"
  by (induction vins) auto

text \<open>
  Claim C1, as stated: the fee is 0 as soon as any input lacks its prevOut.
  \<open>HasPrevOutData\<close> is true as soon as one input has a prevOut, so a transaction
  with one resolved and one unresolved input gets a fee from the partial input
  total: \<open>partial_tx\<close> is not coinbase, its second input has no prevOut, and its
  fee is 2 - 1 = 1.
\<close>

theorem CalculateFee_partial_inputs_counterexample:
  "\<not> IsCoinbase partial_tx \<and> vin_PrevOut (tx_Vin partial_tx ! 1) = None
   \<and> CalculateFee partial_tx = 1"
  by (simp add: example_defs CalculateFee_def IsCoinbase_def HasPrevOutData_def
        CalculateTotalInput_def CalculateTotalOutput_def)

text \<open>
  Claim C1, amended: \<open>CalculateFee\<close> returns 0 if the transaction is coinbase or
  if no input has prevOut data; otherwise it returns totalInput minus
  totalOutput clamped below at 0, where totalInput adds the positive prevOut
  values of the inputs that have one and totalOutput adds the positive output
  values. The fee is never negative.
\<close>

theorem CalculateFee_spec:
  "((IsCoinbase tx \<or> (\<forall>vin \<in> set (tx_Vin tx). vin_PrevOut vin = None)) \<longrightarrow> CalculateFee tx = 0)
   \<and> (\<not> IsCoinbase tx \<and> (\<exists>vin \<in> set (tx_Vin tx). vin_PrevOut vin \<noteq> None) \<longrightarrow>
        CalculateFee tx =
          max 0 ((\<Sum>vin \<leftarrow> tx_Vin tx. case vin_PrevOut vin of
                     Some p \<Rightarrow> if prevout_Value p > 0 then prevout_Value p else 0
                   | None \<Rightarrow> 0)
                 - (\<Sum>vout \<leftarrow> tx_Vout tx. if vout_Value vout > 0 then vout_Value vout else 0)))
   \<and> 0 \<le> CalculateFee tx"
  unfolding CalculateFee_def HasPrevOutData_def HasPrevOutData_loop_iff Let_def
    CalculateTotalInput_sum CalculateTotalOutput_sum
  by (auto simp: max_def)

theorem CalculateFee_spec_witness:
  "IsCoinbase coinbase_tx \<and> CalculateFee coinbase_tx = 0
   \<and> \<not> IsCoinbase spend_tx \<and> vin_PrevOut (tx_Vin spend_tx ! 0) \<noteq> None
   \<and> CalculateFee spend_tx = 1 / 100"
proof -
  have c: "IsCoinbase coinbase_tx"
    by (simp add: example_defs IsCoinbase_def)
  have s: "\<not> IsCoinbase spend_tx" "vin_PrevOut (tx_Vin spend_tx ! 0) \<noteq> None"
    by (simp_all add: example_defs IsCoinbase_def)
  have e: "\<exists>vin \<in> set (tx_Vin spend_tx). vin_PrevOut vin \<noteq> None"
    by (simp add: example_defs)
  have "CalculateFee coinbase_tx = 0"
    using CalculateFee_spec [of coinbase_tx] c by blast
  moreover have "CalculateFee spend_tx = 1 / 100"
    using CalculateFee_spec [of spend_tx] s(1) e by (simp add: example_defs)
  ultimately show ?thesis using c s by blast
qed

section \<open>ExtractTransfers on coinbase transactions\<close>

lemma fold_append_each: "fold (\<lambda>x acc. acc @ [g x]) xs acc0 = acc0 @ map g xs"
  by (induction xs arbitrary: acc0) simp_all

lemma fold_coinbase_vout_step:
  "fold (coinbase_vout_step tx nid bn ts) vouts trs =
     trs @ concat (map (\<lambda>vout. map (coinbase_transfer tx nid bn ts vout)
                                  (ExtractAddresses (vout_ScriptPubKey vout)))
                       (filter (\<lambda>vout. vout_Value vout > 0
                                  \<and> ExtractAddresses (vout_ScriptPubKey vout) \<noteq> []) vouts))"
  by (induction vouts arbitrary: trs)
     (auto simp: coinbase_vout_step_def Let_def fold_append_each)

text \<open>
  Claim C3: for a coinbase transaction every emitted transfer has sender
  \<open>coinbase\<close>, fee 0 and type mining; the transfers are, in order, one per
  extracted address of each output with positive value and at least one
  address, each with that output's full value as amount.
\<close>

theorem ExtractTransfers_coinbase:
  assumes "IsCoinbase tx"
  shows "(\<forall>t \<in> set (ExtractTransfers tx nid bn ts fee visit).
            FromAddress t = ''coinbase'' \<and> TxFee t = 0 \<and> Type t = TxnTypeMining)
       \<and> map (\<lambda>t. (ToAddress t, Amount t)) (ExtractTransfers tx nid bn ts fee visit)
          = concat (map (\<lambda>vout. map (\<lambda>addr. (addr, vout_Value vout))
                                     (ExtractAddresses (vout_ScriptPubKey vout)))
                        (filter (\<lambda>vout. vout_Value vout > 0
                                   \<and> ExtractAddresses (vout_ScriptPubKey vout) \<noteq> [])
                                (tx_Vout tx)))"
proof -
  have eq: "ExtractTransfers tx nid bn ts fee visit =
     concat (map (\<lambda>vout. map (coinbase_transfer tx nid bn ts vout)
                                  (ExtractAddresses (vout_ScriptPubKey vout)))
                 (filter (\<lambda>vout. vout_Value vout > 0
                            \<and> ExtractAddresses (vout_ScriptPubKey vout) \<noteq> []) (tx_Vout tx)))"
    using assms by (simp add: ExtractTransfers_def fold_coinbase_vout_step)
  have fields: "\<forall>t \<in> set (ExtractTransfers tx nid bn ts fee visit).
            FromAddress t = ''coinbase'' \<and> TxFee t = 0 \<and> Type t = TxnTypeMining"
    unfolding eq by (auto simp: coinbase_transfer_def)
  have pairs: "map (\<lambda>t. (ToAddress t, Amount t)) (ExtractTransfers tx nid bn ts fee visit)
          = concat (map (\<lambda>vout. map (\<lambda>addr. (addr, vout_Value vout))
                                     (ExtractAddresses (vout_ScriptPubKey vout)))
                        (filter (\<lambda>vout. vout_Value vout > 0
                                   \<and> ExtractAddresses (vout_ScriptPubKey vout) \<noteq> [])
                                (tx_Vout tx)))"
    unfolding eq by (simp add: map_concat comp_def coinbase_transfer_def)
  from fields pairs show ?thesis by blast
qed

theorem ExtractTransfers_coinbase_witness:
  "IsCoinbase coinbase_tx
   \<and> map (\<lambda>t. (ToAddress t, Amount t)) (ExtractTransfers coinbase_tx ''btc'' 7 9 5 (\<lambda>m. []))
       = [(''M'', 25 / 4), (''A'', 1), (''B'', 1)]
   \<and> list_all (\<lambda>t. FromAddress t = ''coinbase'' \<and> TxFee t = 0 \<and> Type t = TxnTypeMining)
        (ExtractTransfers coinbase_tx ''btc'' 7 9 5 (\<lambda>m. []))"
proof -
  have c: "IsCoinbase coinbase_tx"
    by (simp add: example_defs IsCoinbase_def)
  note th = ExtractTransfers_coinbase [OF c, of "''btc''" 7 9 5 "\<lambda>m. []"]
  have "map (\<lambda>t. (ToAddress t, Amount t)) (ExtractTransfers coinbase_tx ''btc'' 7 9 5 (\<lambda>m. []))
       = [(''M'', 25 / 4), (''A'', 1), (''B'', 1)]"
    using th by (simp add: example_defs ExtractAddresses_eq)
  moreover have "list_all (\<lambda>t. FromAddress t = ''coinbase'' \<and> TxFee t = 0 \<and> Type t = TxnTypeMining)
        (ExtractTransfers coinbase_tx ''btc'' 7 9 5 (\<lambda>m. []))"
    using th by (simp add: list_all_iff)
  ultimately show ?thesis using c by blast
qed

section \<open>ExtractTransfers on regular transactions: the loops\<close>

lemma regular_step_assigned:
  "fold (regular_step tx nid bn ts fee ins fromAddr) es (trs, True)
     = (trs @ map (emitted tx nid bn ts fromAddr 0) es, True)"
  by (induction es arbitrary: trs)
     (auto simp: regular_step_def emitted_def Let_def)

lemma regular_step_unassigned:
  assumes "fee \<noteq> 0"
  shows "fold (regular_step tx nid bn ts fee ins fromAddr) es (trs, False)
     = (trs @ map (emitted tx nid bn ts fromAddr 0) (takeWhile (\<lambda>e. fst e \<in> set ins) es)
          @ (case dropWhile (\<lambda>e. fst e \<in> set ins) es of
               [] \<Rightarrow> []
             | e # post \<Rightarrow> emitted tx nid bn ts fromAddr fee e
                            # map (emitted tx nid bn ts fromAddr 0) post),
        dropWhile (\<lambda>e. fst e \<in> set ins) es \<noteq> [])"
  using assms
  by (induction es arbitrary: trs)
     (auto simp: regular_step_def emitted_def Let_def regular_step_assigned)

lemma fallback_step_assigned:
  "fold (fallback_step tx nid bn ts fee) es (trs, True)
     = (trs @ map (emitted tx nid bn ts '''' 0) es, True)"
  by (induction es arbitrary: trs)
     (auto simp: fallback_step_def emitted_def Let_def)

lemma fallback_step_unassigned:
  assumes "fee \<noteq> 0"
  shows "fold (fallback_step tx nid bn ts fee) es (trs, False)
     = (trs @ (case es of [] \<Rightarrow> []
               | e # post \<Rightarrow> emitted tx nid bn ts '''' fee e
                            # map (emitted tx nid bn ts '''' 0) post),
        es \<noteq> [])"
  using assms
  by (cases es) (auto simp: fallback_step_def emitted_def Let_def fallback_step_assigned)

lemma takeWhile_False: "takeWhile (\<lambda>e. False) es = []"
  by (cases es) simp_all

lemma dropWhile_False: "dropWhile (\<lambda>e. False) es = es"
  by (cases es) simp_all

lemma ExtractTransfers_regular:
  assumes "\<not> IsCoinbase tx" "fee \<noteq> 0"
  shows "\<exists>fromAddr. ExtractTransfers tx nid bn ts fee visit =
      map (emitted tx nid bn ts fromAddr 0)
          (takeWhile (\<lambda>e. fst e \<in> set (ExtractInputAddresses tx)) (visit (GroupOutputsByAddress tx)))
      @ (case dropWhile (\<lambda>e. fst e \<in> set (ExtractInputAddresses tx)) (visit (GroupOutputsByAddress tx)) of
           [] \<Rightarrow> []
         | e # post \<Rightarrow> emitted tx nid bn ts fromAddr fee e
                        # map (emitted tx nid bn ts fromAddr 0) post)"
proof (cases "ExtractInputAddresses tx")
  case Nil
  with assms show ?thesis
    by (intro exI[of _ "''''"])
       (simp add: ExtractTransfers_def fallback_step_unassigned takeWhile_False dropWhile_False)
next
  case (Cons first rest)
  define fromAddr where "fromAddr =
    (if length (ExtractInputAddresses tx) > 1
     then first @ ''+'' @ show_nat (length (ExtractInputAddresses tx) - 1) @ ''_more''
     else first)"
  have "ExtractTransfers tx nid bn ts fee visit =
      fst (fold (regular_step tx nid bn ts fee (ExtractInputAddresses tx) fromAddr)
             (visit (GroupOutputsByAddress tx)) ([], False))"
    using assms(1) Cons by (simp add: ExtractTransfers_def Let_def fromAddr_def)
  also have "\<dots> = map (emitted tx nid bn ts fromAddr 0)
          (takeWhile (\<lambda>e. fst e \<in> set (ExtractInputAddresses tx)) (visit (GroupOutputsByAddress tx)))
      @ (case dropWhile (\<lambda>e. fst e \<in> set (ExtractInputAddresses tx)) (visit (GroupOutputsByAddress tx)) of
           [] \<Rightarrow> []
         | e # post \<Rightarrow> emitted tx nid bn ts fromAddr fee e
                        # map (emitted tx nid bn ts fromAddr 0) post)"
    by (simp add: regular_step_unassigned[OF assms(2)])
  finally show ?thesis by blast
qed

lemma fee_position:
  fixes g :: "decimal \<Rightarrow> string \<times> decimal \<Rightarrow> types_Transaction"
  assumes g_to: "\<And>x e. ToAddress (g x e) = fst e"
      and g_fee: "\<And>x e. TxFee (g x e) = x"
      and ts: "ts = map (g 0) (takeWhile P es)
                 @ (case dropWhile P es of [] \<Rightarrow> [] | e # post \<Rightarrow> g f e # map (g 0) post)"
  shows "map ToAddress ts = map fst es"
    and "\<exists>e \<in> set es. \<not> P e \<Longrightarrow>
           \<exists>i < length ts. \<not> P (es ! i) \<and> (\<forall>j < i. P (es ! j)) \<and> TxFee (ts ! i) = f
              \<and> (\<forall>j < length ts. j \<noteq> i \<longrightarrow> TxFee (ts ! j) = 0)"
    and "\<forall>e \<in> set es. P e \<Longrightarrow> \<forall>t \<in> set ts. TxFee t = 0"
proof -
  have split: "es = takeWhile P es @ dropWhile P es" by simp
  show m: "map ToAddress ts = map fst es"
  proof (cases "dropWhile P es")
    case Nil
    then have "takeWhile P es = es" using split by simp
    with Nil have "ts = map (g 0) es" by (simp only: ts list.case append_Nil2)
    then show ?thesis by (simp add: g_to)
  next
    case (Cons e post)
    then have "es = takeWhile P es @ e # post" using split by simp
    then have "map fst es = map fst (takeWhile P es) @ fst e # map fst post"
      by (metis list.simps(9) map_append)
    moreover from Cons have "ts = map (g 0) (takeWhile P es) @ g f e # map (g 0) post"
      by (simp only: ts list.case)
    ultimately show ?thesis by (simp add: g_to)
  qed
  show "\<forall>t \<in> set ts. TxFee t = 0" if "\<forall>e \<in> set es. P e"
  proof -
    from that have "dropWhile P es = []" by simp
    then have "ts = map (g 0) (takeWhile P es)" by (simp only: ts list.case append_Nil2)
    then show ?thesis by (auto simp: g_fee)
  qed
  show "\<exists>i < length ts. \<not> P (es ! i) \<and> (\<forall>j < i. P (es ! j)) \<and> TxFee (ts ! i) = f
              \<and> (\<forall>j < length ts. j \<noteq> i \<longrightarrow> TxFee (ts ! j) = 0)"
    if "\<exists>e \<in> set es. \<not> P e"
  proof -
    let ?pre = "takeWhile P es"
    let ?i = "length ?pre"
    from that obtain e post where dw: "dropWhile P es = e # post"
      by (metis dropWhile_eq_Nil_conv neq_Nil_conv)
    have "length es = ?i + length (dropWhile P es)"
      by (metis split length_append)
    then have lt: "?i < length es" by (simp add: dw)
    have tsf: "ts = map (g 0) ?pre @ g f e # map (g 0) post"
      by (simp add: ts dw)
    have len: "length ts = length es"
      using m by (metis length_map)
    have a: "\<not> P (es ! ?i)" using lt by (rule nth_length_takeWhile)
    have b: "\<forall>j < ?i. P (es ! j)"
      by (metis nth_mem set_takeWhileD takeWhile_nth)
    have c: "TxFee (ts ! ?i) = f"
      by (simp add: tsf nth_append g_fee)
    have d: "\<forall>j < length ts. j \<noteq> ?i \<longrightarrow> TxFee (ts ! j) = 0"
    proof (intro allI impI)
      fix j assume j: "j < length ts" "j \<noteq> ?i"
      show "TxFee (ts ! j) = 0"
      proof (cases "j < ?i")
        case True
        then show ?thesis by (simp add: tsf nth_append g_fee)
      next
        case False
        with j have gt: "j > ?i" by simp
        then obtain k where k: "j = ?i + Suc k" by (metis less_iff_Suc_add add_Suc_right)
        have "k < length post" using j(1) k by (simp add: tsf)
        then show ?thesis by (simp add: tsf k nth_append g_fee)
      qed
    qed
    from lt len a b c d show ?thesis by auto
  qed
qed

lemma map_range_dom: "map_range m es \<Longrightarrow> dom m = fst ` set es"
  unfolding map_range_def by (metis dom_map_of_conv_image_fst)

section \<open>The grouped outputs and the amounts\<close>

lemma dom_group_address_step: "dom (group_address_step v a m) = insert a (dom m)"
  by (auto simp: group_address_step_def split: option.splits)

lemma map_total_group_address_step:
  assumes "finite (dom m)"
  shows "map_total (group_address_step v a m) = map_total m + v"
proof (cases "m a")
  case None
  then have a: "a \<notin> dom m" by (simp add: domIff)
  have "map_total (group_address_step v a m) = (\<Sum>k \<in> insert a (dom m). the ((m(a \<mapsto> v)) k))"
    using None by (simp add: map_total_def group_address_step_def)
  also have "\<dots> = v + (\<Sum>k \<in> dom m. the ((m(a \<mapsto> v)) k))"
    using assms a by simp
  also have "(\<Sum>k \<in> dom m. the ((m(a \<mapsto> v)) k)) = (\<Sum>k \<in> dom m. the (m k))"
    using a by (intro sum.cong) auto
  finally show ?thesis by (simp add: map_total_def)
next
  case (Some x)
  then have a: "a \<in> dom m" by (simp add: domIff)
  then have ins: "insert a (dom m) = dom m" by auto
  have "map_total (group_address_step v a m) = (\<Sum>k \<in> dom m. the ((m(a \<mapsto> x + v)) k))"
    using Some ins by (simp add: map_total_def group_address_step_def)
  also have "\<dots> = the ((m(a \<mapsto> x + v)) a) + (\<Sum>k \<in> dom m - {a}. the ((m(a \<mapsto> x + v)) k))"
    using assms a by (rule sum.remove)
  also have "(\<Sum>k \<in> dom m - {a}. the ((m(a \<mapsto> x + v)) k)) = (\<Sum>k \<in> dom m - {a}. the (m k))"
    by (intro sum.cong) auto
  also have "the ((m(a \<mapsto> x + v)) a) = the (m a) + v" using Some by simp
  also have "the (m a) + v + (\<Sum>k \<in> dom m - {a}. the (m k)) = (the (m a) + (\<Sum>k \<in> dom m - {a}. the (m k))) + v"
    by simp
  also have "the (m a) + (\<Sum>k \<in> dom m - {a}. the (m k)) = (\<Sum>k \<in> dom m. the (m k))"
    using assms a by (rule sum.remove[symmetric])
  finally show ?thesis by (simp add: map_total_def)
qed

lemma fold_group_address_step:
  "finite (dom m) \<Longrightarrow>
     finite (dom (fold (group_address_step v) as m))
     \<and> dom (fold (group_address_step v) as m) = dom m \<union> set as
     \<and> map_total (fold (group_address_step v) as m) = map_total m + v * of_nat (length as)"
proof (induction as arbitrary: m)
  case Nil
  then show ?case by simp
next
  case (Cons a as)
  have fin: "finite (dom (group_address_step v a m))"
    using Cons.prems by (simp add: dom_group_address_step)
  from Cons.IH[OF fin] Cons.prems show ?case
    by (simp add: dom_group_address_step map_total_group_address_step algebra_simps)
qed

lemma group_vout_step_props:
  assumes "finite (dom m)"
  shows "finite (dom (group_vout_step vout m))"
    and "dom (group_vout_step vout m) =
           dom m \<union> (if vout_Value vout > 0 then set (ExtractAddresses (vout_ScriptPubKey vout)) else {})"
    and "map_total (group_vout_step vout m) =
           map_total m + (if vout_Value vout > 0
                          then vout_Value vout * of_nat (length (ExtractAddresses (vout_ScriptPubKey vout)))
                          else 0)"
  using fold_group_address_step[OF assms, of "vout_Value vout" "ExtractAddresses (vout_ScriptPubKey vout)"] assms
  by (auto simp: group_vout_step_def Let_def)

lemma fold_group_vout_step:
  "finite (dom m) \<Longrightarrow>
     finite (dom (fold group_vout_step vouts m))
     \<and> dom (fold group_vout_step vouts m) =
           dom m \<union> (\<Union>vout \<in> {v \<in> set vouts. vout_Value v > 0}. set (ExtractAddresses (vout_ScriptPubKey vout)))
     \<and> map_total (fold group_vout_step vouts m) =
         map_total m + (\<Sum>vout \<leftarrow> vouts. if vout_Value vout > 0
                          then vout_Value vout * of_nat (length (ExtractAddresses (vout_ScriptPubKey vout)))
                          else 0)"
proof (induction vouts arbitrary: m)
  case Nil
  then show ?case by simp
next
  case (Cons vout vouts)
  note p = group_vout_step_props[OF Cons.prems, of vout]
  from Cons.IH[OF p(1)] show ?case
    unfolding fold_simps p(2) p(3) by (auto simp: algebra_simps)
qed

lemma map_range_total:
  assumes "map_range m es"
  shows "sum_list (map snd es) = map_total m"
proof -
  from assms have d: "distinct (map fst es)" and m: "m = map_of es"
    by (simp_all add: map_range_def)
  have "map_total m = (\<Sum>k \<in> set (map fst es). the (map_of es k))"
    unfolding map_total_def m by (simp only: dom_map_of_conv_image_fst set_map)
  also have "\<dots> = sum_list (map (\<lambda>k. the (map_of es k)) (map fst es))"
    by (rule sum_list_distinct_conv_sum_set[OF d, symmetric])
  also have "\<dots> = sum_list (map snd es)"
  proof -
    have "\<forall>e \<in> set es. the (map_of es (fst e)) = snd e"
      using d by (auto simp: map_of_eq_Some_iff[OF d])
    then have "map (\<lambda>k. the (map_of es k)) (map fst es) = map snd es"
      by (simp add: comp_def)
    then show ?thesis by (simp only:)
  qed
  finally show ?thesis by simp
qed

lemma sum_list_filter_cond:
  "sum_list (map f (filter P xs)) = (\<Sum>x \<leftarrow> xs. if P x then f x else (0::rat))"
  by (induction xs) simp_all

lemma sum_list_const_map: "(\<Sum>x \<leftarrow> xs. (c::rat)) = c * of_nat (length xs)"
  by (induction xs) (simp_all add: algebra_simps)

lemma coinbase_amounts:
  "sum_list (map Amount (fold (coinbase_vout_step tx nid bn ts) vouts trs)) =
     sum_list (map Amount trs)
     + (\<Sum>vout \<leftarrow> vouts. if vout_Value vout > 0
          then vout_Value vout * of_nat (length (ExtractAddresses (vout_ScriptPubKey vout)))
          else 0)"
proof (induction vouts arbitrary: trs)
  case Nil
  then show ?case by simp
next
  case (Cons vout vouts)
  have step: "sum_list (map Amount (coinbase_vout_step tx nid bn ts vout trs)) =
        sum_list (map Amount trs) + (if vout_Value vout > 0
          then vout_Value vout * of_nat (length (ExtractAddresses (vout_ScriptPubKey vout)))
          else 0)"
    by (simp add: coinbase_vout_step_def Let_def fold_append_each comp_def
          coinbase_transfer_def sum_list_const_map)
  show ?case
    unfolding fold_simps Cons.IH step by simp
qed

lemma regular_step_amounts:
  "map Amount (fst (fold (regular_step tx nid bn ts fee ins fromAddr) es st))
     = map Amount (fst st) @ map snd es"
proof (induction es arbitrary: st)
  case Nil
  then show ?case by simp
next
  case (Cons e es)
  obtain trs fa where st: "st = (trs, fa)" by (cases st)
  obtain a v where e: "e = (a, v)" by (cases e)
  have "map Amount (fst (regular_step tx nid bn ts fee ins fromAddr e st)) = map Amount (fst st) @ [snd e]"
    by (simp add: regular_step_def Let_def st e)
  then show ?case unfolding fold_simps Cons.IH by simp
qed

lemma fallback_step_amounts:
  "map Amount (fst (fold (fallback_step tx nid bn ts fee) es st))
     = map Amount (fst st) @ map snd es"
proof (induction es arbitrary: st)
  case Nil
  then show ?case by simp
next
  case (Cons e es)
  obtain trs fa where st: "st = (trs, fa)" by (cases st)
  obtain a v where e: "e = (a, v)" by (cases e)
  have "map Amount (fst (fallback_step tx nid bn ts fee e st)) = map Amount (fst st) @ [snd e]"
    by (simp add: fallback_step_def Let_def st e)
  then show ?case unfolding fold_simps Cons.IH by simp
qed

lemma ExtractTransfers_amounts:
  "\<not> IsCoinbase tx \<Longrightarrow>
     map Amount (ExtractTransfers tx nid bn ts fee visit) = map snd (visit (GroupOutputsByAddress tx))"
  by (simp add: ExtractTransfers_def Let_def regular_step_amounts fallback_step_amounts
        split: list.splits)

lemma GroupOutputsByAddress_total:
  "map_total (GroupOutputsByAddress tx) =
     (\<Sum>vout \<leftarrow> tx_Vout tx. if vout_Value vout > 0
          then vout_Value vout * of_nat (length (ExtractAddresses (vout_ScriptPubKey vout)))
          else 0)"
proof -
  have fin: "finite (dom (Map.empty :: string \<rightharpoonup> decimal))" by simp
  have zero: "map_total Map.empty = 0" by (simp add: map_total_def)
  from fold_group_vout_step[OF fin, of "tx_Vout tx"] show ?thesis
    unfolding GroupOutputsByAddress_def zero by (simp only: add_0)
qed

lemma dom_GroupOutputsByAddress:
  "dom (GroupOutputsByAddress tx) =
     (\<Union>vout \<in> {v \<in> set (tx_Vout tx). vout_Value v > 0}. set (ExtractAddresses (vout_ScriptPubKey vout)))"
  using fold_group_vout_step[of Map.empty "tx_Vout tx"]
  by (simp add: GroupOutputsByAddress_def)

section \<open>ExtractTransfers on regular transactions: fee attribution\<close>

text \<open>
  Claim C2: for a non-coinbase transaction and a fee \<open>f > 0\<close>, whatever the order
  in which the loop visits \<open>outputsByAddress\<close>, one transfer is emitted per
  visited address, in that order; the destinations are pairwise different and
  are exactly the output addresses, that is the keys of \<open>outputsByAddress\<close>,
  which are the addresses extracted from the outputs with positive value; and
  \<^item> if some output address (a key of \<open>outputsByAddress\<close>) is not an input
    address, then exactly one emitted transfer carries \<open>f\<close>: it is the first
    one whose destination is not an input address, and every other emitted
    transfer carries 0;
  \<^item> if every output address is an input address, every emitted transfer
    carries 0.
\<close>

theorem ExtractTransfers_fee_attribution:
  assumes nc: "\<not> IsCoinbase tx" and pos: "0 < f"
      and rng: "map_range (GroupOutputsByAddress tx) (visit (GroupOutputsByAddress tx))"
  shows "let ts = ExtractTransfers tx nid bn t f visit; ins = ExtractInputAddresses tx in
    map ToAddress ts = map fst (visit (GroupOutputsByAddress tx)) \<and> distinct (map ToAddress ts) \<and>
    set (map ToAddress ts) = dom (GroupOutputsByAddress tx) \<and>
    dom (GroupOutputsByAddress tx) =
      (\<Union>vout \<in> {v \<in> set (tx_Vout tx). vout_Value v > 0}.
          set (ExtractAddresses (vout_ScriptPubKey vout))) \<and>
    ((\<exists>a \<in> dom (GroupOutputsByAddress tx). a \<notin> set ins) \<longrightarrow>
       (\<exists>i < length ts. ToAddress (ts ! i) \<notin> set ins \<and> (\<forall>j < i. ToAddress (ts ! j) \<in> set ins)
            \<and> TxFee (ts ! i) = f \<and> (\<forall>j < length ts. j \<noteq> i \<longrightarrow> TxFee (ts ! j) = 0))) \<and>
    ((\<forall>a \<in> dom (GroupOutputsByAddress tx). a \<in> set ins) \<longrightarrow> (\<forall>t \<in> set ts. TxFee t = 0))"
proof -
  define es where "es = visit (GroupOutputsByAddress tx)"
  define ts where "ts = ExtractTransfers tx nid bn t f visit"
  define ins where "ins = ExtractInputAddresses tx"
  let ?P = "\<lambda>e::string \<times> decimal. fst e \<in> set ins"
  from pos have "f \<noteq> 0" by simp
  from ExtractTransfers_regular[OF nc this, of nid bn t visit]
  obtain fromAddr where form:
    "ts = map (emitted tx nid bn t fromAddr 0) (takeWhile ?P es)
       @ (case dropWhile ?P es of [] \<Rightarrow> []
          | e # post \<Rightarrow> emitted tx nid bn t fromAddr f e # map (emitted tx nid bn t fromAddr 0) post)"
    unfolding ts_def ins_def es_def by blast
  have g_to: "\<And>x e. ToAddress (emitted tx nid bn t fromAddr x e) = fst e"
    and g_fee: "\<And>x e. TxFee (emitted tx nid bn t fromAddr x e) = x"
    by (simp_all add: emitted_def)
  note fp = fee_position[where g = "emitted tx nid bn t fromAddr", OF g_to g_fee form]
  have to: "map ToAddress ts = map fst es" by (rule fp(1))
  have nth_to: "ToAddress (ts ! j) = fst (es ! j)" if "j < length ts" for j
    using that to by (metis length_map nth_map)
  have dom: "dom (GroupOutputsByAddress tx) = fst ` set es"
    using rng unfolding es_def by (rule map_range_dom)
  have one: "\<exists>i < length ts. ToAddress (ts ! i) \<notin> set ins \<and> (\<forall>j < i. ToAddress (ts ! j) \<in> set ins)
            \<and> TxFee (ts ! i) = f \<and> (\<forall>j < length ts. j \<noteq> i \<longrightarrow> TxFee (ts ! j) = 0)"
    if "\<exists>a \<in> dom (GroupOutputsByAddress tx). a \<notin> set ins"
  proof -
    from that have "\<exists>e \<in> set es. \<not> ?P e" by (auto simp: dom)
    from fp(2)[OF this] obtain i where i: "i < length ts" "\<not> ?P (es ! i)" "\<forall>j < i. ?P (es ! j)"
      "TxFee (ts ! i) = f" "\<forall>j < length ts. j \<noteq> i \<longrightarrow> TxFee (ts ! j) = 0"
      by blast
    have "ToAddress (ts ! i) \<notin> set ins" using i(1,2) by (simp add: nth_to)
    moreover have "\<forall>j < i. ToAddress (ts ! j) \<in> set ins"
      using i(1,3) by (simp add: nth_to)
    ultimately show ?thesis using i(1,4,5) by blast
  qed
  have none: "\<forall>t \<in> set ts. TxFee t = 0"
    if "\<forall>a \<in> dom (GroupOutputsByAddress tx). a \<in> set ins"
  proof -
    from that have "\<forall>e \<in> set es. ?P e" by (auto simp: dom)
    then show ?thesis by (rule fp(3))
  qed
  have dist: "distinct (map ToAddress ts)"
    using rng by (simp add: to map_range_def es_def)
  have dests: "set (map ToAddress ts) = dom (GroupOutputsByAddress tx)"
    by (simp only: to dom set_map)
  note outs = dom_GroupOutputsByAddress [of tx]
  from to dist dests outs one none show ?thesis
    unfolding Let_def ts_def[symmetric] ins_def[symmetric] es_def[symmetric] by blast
qed

lemma GroupOutputsByAddress_spend_tx:
  "GroupOutputsByAddress spend_tx = [''B'' \<mapsto> 3 / 10, ''A'' \<mapsto> 69 / 100]"
  by (simp add: example_defs GroupOutputsByAddress_def group_vout_step_def
        group_address_step_def ExtractAddresses_eq)

lemma GroupOutputsByAddress_self_tx:
  "GroupOutputsByAddress self_tx = [''A'' \<mapsto> 99 / 100]"
  by (simp add: example_defs GroupOutputsByAddress_def group_vout_step_def
        group_address_step_def ExtractAddresses_eq)

lemma ExtractInputAddresses_examples:
  "ExtractInputAddresses spend_tx = [''A'']"
  "ExtractInputAddresses self_tx = [''A'']"
  "ExtractInputAddresses multisig_tx = [''A'']"
  by (simp_all add: example_defs ExtractInputAddresses_def input_vin_step_def
        input_address_step_def ExtractAddresses_eq)

theorem ExtractTransfers_fee_attribution_witness:
  "\<not> IsCoinbase spend_tx
   \<and> map_range (GroupOutputsByAddress spend_tx) [(''A'', 69 / 100), (''B'', 3 / 10)]
   \<and> map ToAddress (ExtractTransfers spend_tx ''btc'' 7 9 (1 / 100) (\<lambda>m. [(''A'', 69 / 100), (''B'', 3 / 10)]))
       = [''A'', ''B'']
   \<and> (\<exists>i < length (ExtractTransfers spend_tx ''btc'' 7 9 (1 / 100) (\<lambda>m. [(''A'', 69 / 100), (''B'', 3 / 10)])).
         ToAddress (ExtractTransfers spend_tx ''btc'' 7 9 (1 / 100) (\<lambda>m. [(''A'', 69 / 100), (''B'', 3 / 10)]) ! i)
           \<notin> set (ExtractInputAddresses spend_tx)
         \<and> TxFee (ExtractTransfers spend_tx ''btc'' 7 9 (1 / 100) (\<lambda>m. [(''A'', 69 / 100), (''B'', 3 / 10)]) ! i)
           = 1 / 100)
   \<and> \<not> IsCoinbase self_tx
   \<and> map_range (GroupOutputsByAddress self_tx) [(''A'', 99 / 100)]
   \<and> list_all (\<lambda>t. TxFee t = 0) (ExtractTransfers self_tx ''btc'' 7 9 (1 / 100) (\<lambda>m. [(''A'', 99 / 100)]))"
proof -
  let ?es = "[(''A'', 69 / 100), (''B'', 3 / 10)] :: (string \<times> decimal) list"
  let ?ts = "ExtractTransfers spend_tx ''btc'' 7 9 (1 / 100) (\<lambda>m. ?es)"
  have nc: "\<not> IsCoinbase spend_tx" "\<not> IsCoinbase self_tx"
    by (simp_all add: example_defs IsCoinbase_def)
  have pos: "(0::decimal) < 1 / 100" by simp
  have r1: "map_range (GroupOutputsByAddress spend_tx) ?es"
    by (simp add: GroupOutputsByAddress_spend_tx map_range_def)
  have r2: "map_range (GroupOutputsByAddress self_tx) [(''A'', 99 / 100)]"
    by (simp add: GroupOutputsByAddress_self_tx map_range_def)
  have out: "\<exists>a \<in> dom (GroupOutputsByAddress spend_tx). a \<notin> set (ExtractInputAddresses spend_tx)"
    by (simp add: GroupOutputsByAddress_spend_tx ExtractInputAddresses_examples)
  have chg: "\<forall>a \<in> dom (GroupOutputsByAddress self_tx). a \<in> set (ExtractInputAddresses self_tx)"
    by (simp add: GroupOutputsByAddress_self_tx ExtractInputAddresses_examples)
  note t1 = ExtractTransfers_fee_attribution
              [of spend_tx "1 / 100" "\<lambda>m. ?es" "''btc''" 7 9, OF nc(1) pos r1, unfolded Let_def]
  note t2 = ExtractTransfers_fee_attribution
              [of self_tx "1 / 100" "\<lambda>m. [(''A'', 99 / 100)]" "''btc''" 7 9, OF nc(2) pos r2,
               unfolded Let_def]
  have a: "map ToAddress ?ts = [''A'', ''B'']"
    using t1 by simp
  have b: "\<exists>i < length ?ts. ToAddress (?ts ! i) \<notin> set (ExtractInputAddresses spend_tx)
             \<and> TxFee (?ts ! i) = 1 / 100"
    using t1 out by blast
  have c: "list_all (\<lambda>t. TxFee t = 0) (ExtractTransfers self_tx ''btc'' 7 9 (1 / 100) (\<lambda>m. [(''A'', 99 / 100)]))"
    using t2 chg by (simp add: list_all_iff)
  from nc r1 r2 a b c show ?thesis by blast
qed

section \<open>ExtractTransfers: the sum of the amounts\<close>

text \<open>
  Claim C4, as stated: the amounts add up to the sum of the values of the
  outputs with positive value and at least one address. An output is emitted
  once per extracted address, each time with its full value, so an output with
  two addresses counts twice: \<open>multisig_tx\<close> has one such output of value 1 and
  its transfers add up to 2.
\<close>

theorem ExtractTransfers_amount_sum_counterexample:
  "map_range (GroupOutputsByAddress multisig_tx) [(''B'', 1), (''C'', 1)]
   \<and> sum_list (map Amount (ExtractTransfers multisig_tx ''btc'' 7 9 1 (\<lambda>m. [(''B'', 1), (''C'', 1)]))) = 2
   \<and> sum_list (map vout_Value
        (filter (\<lambda>v. vout_Value v > 0 \<and> ExtractAddresses (vout_ScriptPubKey v) \<noteq> [])
                (tx_Vout multisig_tx))) = 1"
proof -
  have g: "GroupOutputsByAddress multisig_tx = [''B'' \<mapsto> 1, ''C'' \<mapsto> 1]"
    by (simp add: example_defs GroupOutputsByAddress_def group_vout_step_def
          group_address_step_def ExtractAddresses_eq)
  have "map_range (GroupOutputsByAddress multisig_tx) [(''B'', 1), (''C'', 1)]"
    unfolding g by (auto simp: map_range_def fun_eq_iff)
  moreover have "sum_list (map Amount (ExtractTransfers multisig_tx ''btc'' 7 9 1 (\<lambda>m. [(''B'', 1), (''C'', 1)]))) = 2"
    by (simp add: ExtractTransfers_def ExtractInputAddresses_examples regular_step_def Let_def)
       (simp add: example_defs IsCoinbase_def)
  moreover have "sum_list (map vout_Value
        (filter (\<lambda>v. vout_Value v > 0 \<and> ExtractAddresses (vout_ScriptPubKey v) \<noteq> [])
                (tx_Vout multisig_tx))) = 1"
    by (simp add: example_defs ExtractAddresses_eq)
  ultimately show ?thesis by blast
qed

text \<open>
  Claim C4, amended: for every transaction and every visiting order of
  \<open>outputsByAddress\<close>, the amounts of the emitted transfers add up to the sum,
  over the outputs with positive value, of the output's value times the number
  of addresses extracted from it (the fee is not involved). When no output has
  more than one extracted address, this is the sum of the values of the outputs
  with positive value and at least one address.
\<close>

theorem ExtractTransfers_amount_sum:
  assumes "map_range (GroupOutputsByAddress tx) (visit (GroupOutputsByAddress tx))"
  shows "sum_list (map Amount (ExtractTransfers tx nid bn ts fee visit)) =
           (\<Sum>vout \<leftarrow> filter (\<lambda>v. vout_Value v > 0) (tx_Vout tx).
               vout_Value vout * of_nat (length (ExtractAddresses (vout_ScriptPubKey vout))))
       \<and> ((\<forall>vout \<in> set (tx_Vout tx). length (ExtractAddresses (vout_ScriptPubKey vout)) \<le> 1) \<longrightarrow>
           sum_list (map Amount (ExtractTransfers tx nid bn ts fee visit)) =
           (\<Sum>vout \<leftarrow> filter (\<lambda>v. vout_Value v > 0 \<and> ExtractAddresses (vout_ScriptPubKey v) \<noteq> [])
                              (tx_Vout tx). vout_Value vout))"
proof -
  let ?w = "\<lambda>vout. if vout_Value vout > 0
          then vout_Value vout * of_nat (length (ExtractAddresses (vout_ScriptPubKey vout)))
          else 0"
  have main: "sum_list (map Amount (ExtractTransfers tx nid bn ts fee visit)) = (\<Sum>vout \<leftarrow> tx_Vout tx. ?w vout)"
  proof (cases "IsCoinbase tx")
    case True
    then show ?thesis
      by (simp add: ExtractTransfers_def coinbase_amounts)
  next
    case False
    then have "sum_list (map Amount (ExtractTransfers tx nid bn ts fee visit)) = sum_list (map snd (visit (GroupOutputsByAddress tx)))"
      by (simp add: ExtractTransfers_amounts)
    also have "\<dots> = map_total (GroupOutputsByAddress tx)"
      using assms by (rule map_range_total)
    finally show ?thesis by (simp add: GroupOutputsByAddress_total)
  qed
  have first: "sum_list (map Amount (ExtractTransfers tx nid bn ts fee visit)) =
           (\<Sum>vout \<leftarrow> filter (\<lambda>v. vout_Value v > 0) (tx_Vout tx).
               vout_Value vout * of_nat (length (ExtractAddresses (vout_ScriptPubKey vout))))"
    unfolding main sum_list_filter_cond ..
  have second: "sum_list (map Amount (ExtractTransfers tx nid bn ts fee visit)) =
           (\<Sum>vout \<leftarrow> filter (\<lambda>v. vout_Value v > 0 \<and> ExtractAddresses (vout_ScriptPubKey v) \<noteq> [])
                              (tx_Vout tx). vout_Value vout)"
    if one: "\<forall>vout \<in> set (tx_Vout tx). length (ExtractAddresses (vout_ScriptPubKey vout)) \<le> 1"
  proof -
    have "(\<Sum>vout \<leftarrow> tx_Vout tx. ?w vout) =
          (\<Sum>vout \<leftarrow> tx_Vout tx. if vout_Value vout > 0 \<and> ExtractAddresses (vout_ScriptPubKey vout) \<noteq> []
                                   then vout_Value vout else 0)"
    proof (rule arg_cong[where f = sum_list], rule map_cong[OF refl])
      fix vout assume "vout \<in> set (tx_Vout tx)"
      with one have "length (ExtractAddresses (vout_ScriptPubKey vout)) \<le> 1" by blast
      then have "ExtractAddresses (vout_ScriptPubKey vout) = []
                 \<or> length (ExtractAddresses (vout_ScriptPubKey vout)) = 1"
        by (cases "ExtractAddresses (vout_ScriptPubKey vout)") auto
      then show "?w vout = (if vout_Value vout > 0 \<and> ExtractAddresses (vout_ScriptPubKey vout) \<noteq> []
                                   then vout_Value vout else 0)"
        by auto
    qed
    then show ?thesis unfolding main sum_list_filter_cond by simp
  qed
  from first second show ?thesis by blast
qed

theorem ExtractTransfers_amount_sum_witness:
  "map_range (GroupOutputsByAddress spend_tx) [(''A'', 69 / 100), (''B'', 3 / 10)]
   \<and> sum_list (map Amount (ExtractTransfers spend_tx ''btc'' 7 9 (1 / 100)
                              (\<lambda>m. [(''A'', 69 / 100), (''B'', 3 / 10)]))) = 99 / 100
   \<and> sum_list (map vout_Value
        (filter (\<lambda>v. vout_Value v > 0 \<and> ExtractAddresses (vout_ScriptPubKey v) \<noteq> [])
                (tx_Vout spend_tx))) = 99 / 100"
proof -
  have r: "map_range (GroupOutputsByAddress spend_tx) [(''A'', 69 / 100), (''B'', 3 / 10)]"
    by (simp add: GroupOutputsByAddress_spend_tx map_range_def)
  have one: "\<forall>vout \<in> set (tx_Vout spend_tx). length (ExtractAddresses (vout_ScriptPubKey vout)) \<le> 1"
    by (simp add: example_defs ExtractAddresses_eq)
  have v: "sum_list (map vout_Value
        (filter (\<lambda>v. vout_Value v > 0 \<and> ExtractAddresses (vout_ScriptPubKey v) \<noteq> [])
                (tx_Vout spend_tx))) = 99 / 100"
    by (simp add: example_defs ExtractAddresses_eq)
  from ExtractTransfers_amount_sum
         [of spend_tx "\<lambda>m. [(''A'', 69 / 100), (''B'', 3 / 10)]" "''btc''" 7 9 "1 / 100", OF r]
       one v r
  show ?thesis by simp
qed

section \<open>IsValidBech32Address\<close>

text \<open>
  Claim C7: \<open>IsValidBech32Address\<close> returns true if and only if the address
  decodes (\<open>bech32.Decode\<close> returns no error) to the human-readable part \<open>bc\<close>
  (mainnet) or \<open>tb\<close> (testnet) and a payload that starts with a witness-version
  symbol, the rest of the payload regroups from 5 to 8 bits without padding
  (\<open>bech32.ConvertBits\<close> with \<open>pad = false\<close> returns no error), and the regrouped
  program has 20 or 32 bytes for version 0 and 32 bytes for version 1; no length
  is asked of the other versions. This holds whatever the two library functions
  compute.
\<close>

theorem IsValidBech32Address_iff:
  "IsValidBech32Address Decode ConvertBits addr isTestnet \<longleftrightarrow>
     (\<exists>hrp witnessVersion rest witnessProgram.
        Decode addr = Inr (hrp, witnessVersion # rest)
        \<and> hrp = (if isTestnet then ''tb'' else ''bc'')
        \<and> ConvertBits rest 5 8 False = Inr witnessProgram
        \<and> (witnessVersion = 0 \<longrightarrow> length witnessProgram = 20 \<or> length witnessProgram = 32)
        \<and> (witnessVersion = 1 \<longrightarrow> length witnessProgram = 32))"
proof (cases "Decode addr")
  case (Inl err)
  then show ?thesis by (simp add: IsValidBech32Address_def)
next
  case (Inr decoded)
  obtain hrp data where decoded: "decoded = (hrp, data)" by (cases decoded)
  show ?thesis
  proof (cases data)
    case Nil
    with Inr decoded show ?thesis by (simp add: IsValidBech32Address_def)
  next
    case (Cons witnessVersion rest)
    show ?thesis
    proof (cases "ConvertBits rest 5 8 False")
      case (Inl err)
      with Inr decoded Cons show ?thesis by (simp add: IsValidBech32Address_def)
    next
      case conv: (Inr witnessProgram)
      with Inr decoded Cons show ?thesis
        by (auto simp: IsValidBech32Address_def MainnetBech32HRP_def TestnetBech32HRP_def)
    qed
  qed
qed

text \<open>
  The witness takes a decoder that yields \<open>bc\<close> with version 0 and a regrouping
  that yields 20 bytes (accepted on mainnet, refused on testnet), and one that
  yields 21 bytes (refused).
\<close>

theorem IsValidBech32Address_iff_witness:
  "IsValidBech32Address (\<lambda>a. (Inr (''bc'', 0 # replicate 32 1) :: unit + string \<times> 8 word list))
        (\<lambda>d f t p. Inr (replicate 20 0)) ''bc1qexample'' False
   \<and> \<not> IsValidBech32Address (\<lambda>a. (Inr (''bc'', 0 # replicate 32 1) :: unit + string \<times> 8 word list))
        (\<lambda>d f t p. Inr (replicate 20 0)) ''bc1qexample'' True
   \<and> \<not> IsValidBech32Address (\<lambda>a. (Inr (''bc'', 0 # replicate 32 1) :: unit + string \<times> 8 word list))
        (\<lambda>d f t p. Inr (replicate 21 0)) ''bc1qexample'' False"
  using IsValidBech32Address_iff
          [of "\<lambda>a. (Inr (''bc'', 0 # replicate 32 1) :: unit + string \<times> 8 word list)"
              "\<lambda>d f t p. Inr (replicate 20 0)" "''bc1qexample''" False]
        IsValidBech32Address_iff
          [of "\<lambda>a. (Inr (''bc'', 0 # replicate 32 1) :: unit + string \<times> 8 word list)"
              "\<lambda>d f t p. Inr (replicate 20 0)" "''bc1qexample''" True]
        IsValidBech32Address_iff
          [of "\<lambda>a. (Inr (''bc'', 0 # replicate 32 1) :: unit + string \<times> 8 word list)"
              "\<lambda>d f t p. Inr (replicate 21 0)" "''bc1qexample''" False]
  by simp

section \<open>GetBlockWithPrevOut and the fallback to verbosity 2\<close>

text \<open>
  Claim C5, as stated: on an error of the call with verbosity 3,
  \<open>GetBlockWithPrevOut\<close> returns the error without retrying. The code calls
  \<open>GetBlockVerbose\<close> itself in that case. Against a node that refuses verbosity
  3 and answers verbosity 2, the function makes both calls and returns the
  block, not the error.
\<close>

theorem GetBlockWithPrevOut_retries_counterexample:
  "GetBlockWithPrevOut (recording old_node) (\<lambda>resp. Inr example_block) ''h'' ([], ())
     = (Inr example_block,
        ([(''getblock'', [PString ''h'', PInt 3]), (''getblock'', [PString ''h'', PInt 2])], ()))"
  by (simp add: GetBlockWithPrevOut_def GetBlockVerbose_def recording_def old_node_def)

text \<open>
  Claim C5, amended: \<open>GetBlockWithPrevOut\<close> first issues \<open>getblock\<close> with
  verbosity 3. When that call succeeds it is the only call, and its decoded
  result (or the decoding error) is returned. When it fails with any error, the
  function itself issues \<open>getblock\<close> with verbosity 2 and returns the outcome of
  that second call; the first error is not returned. The orchestrator's
  operation falls back to \<open>GetBlockVerbose\<close> as well, when
  \<open>GetBlockWithPrevOut\<close> has returned an error.
\<close>

theorem GetBlockWithPrevOut_falls_back_itself:
  "GetBlockWithPrevOut (recording CallRPC) unmarshal hash ([], s) =
     (case CallRPC ''getblock'' [PString hash, PInt 3] s of
        (Inr resp, s1) \<Rightarrow>
          ((case unmarshal resp of
              Inl err \<Rightarrow> Inl (Wrapped ''decode getblock'' err)
            | Inr blk \<Rightarrow> Inr blk),
           ([(''getblock'', [PString hash, PInt 3])], s1))
      | (Inl err3, s1) \<Rightarrow>
          (case CallRPC ''getblock'' [PString hash, PInt 2] s1 of
             (Inl err2, s2) \<Rightarrow>
               (Inl (Passed err2),
                ([(''getblock'', [PString hash, PInt 3]),
                  (''getblock'', [PString hash, PInt 2])], s2))
           | (Inr resp, s2) \<Rightarrow>
               ((case unmarshal resp of
                   Inl err \<Rightarrow> Inl (Wrapped ''decode getblock'' err)
                 | Inr blk \<Rightarrow> Inr blk),
                ([(''getblock'', [PString hash, PInt 3]),
                  (''getblock'', [PString hash, PInt 2])], s2))))
   \<and> (GetBlockHash Call unmarshal_hash number t = (Inr hash, t1)
        \<and> GetBlockWithPrevOut Call unmarshal hash t1 = (Inl err, t2)
      \<longrightarrow> GetBlock_op Call unmarshal_hash unmarshal number t
            = GetBlockVerbose Call unmarshal hash t2)"
  by (auto simp: GetBlockWithPrevOut_def GetBlockVerbose_def recording_def GetBlock_op_def
           split: sum.splits prod.splits)

theorem GetBlockWithPrevOut_falls_back_itself_witness:
  "GetBlockWithPrevOut (recording flaky_node) (\<lambda>resp. Inr example_block) ''h'' ([], 0)
     = (Inl (Passed ''timeout''),
        ([(''getblock'', [PString ''h'', PInt 3]), (''getblock'', [PString ''h'', PInt 2])], 2))
   \<and> GetBlockHash flaky_node (\<lambda>resp. Inr ''h'') 7 0 = (Inr ''h'', 0)
   \<and> GetBlockWithPrevOut flaky_node (\<lambda>resp. Inr example_block) ''h'' 0 = (Inl (Passed ''timeout''), 2)
   \<and> GetBlock_op flaky_node (\<lambda>resp. Inr ''h'') (\<lambda>resp. Inr example_block) 7 0
       = (Inr example_block, 3)"
proof -
  have h: "GetBlockHash flaky_node (\<lambda>resp. Inr ''h'') 7 0 = (Inr ''h'', 0)"
    by (simp add: GetBlockHash_def flaky_node_def)
  have w: "GetBlockWithPrevOut flaky_node (\<lambda>resp. Inr example_block) ''h'' 0
             = (Inl (Passed ''timeout''), 2)"
    by (simp add: GetBlockWithPrevOut_def GetBlockVerbose_def flaky_node_def numeral_2_eq_2)
  have v: "GetBlockVerbose flaky_node (\<lambda>resp. Inr example_block) ''h'' 2 = (Inr example_block, 3)"
    by (simp add: GetBlockVerbose_def flaky_node_def numeral_3_eq_3 numeral_2_eq_2)
  note th = GetBlockWithPrevOut_falls_back_itself
              [of flaky_node "\<lambda>resp. Inr example_block" "''h''" 0
                  flaky_node "\<lambda>resp. Inr ''h''" 7 0 0 "Passed ''timeout''" 2]
  have a: "GetBlockWithPrevOut (recording flaky_node) (\<lambda>resp. Inr example_block) ''h'' ([], 0)
     = (Inl (Passed ''timeout''),
        ([(''getblock'', [PString ''h'', PInt 3]), (''getblock'', [PString ''h'', PInt 2])], 2))"
    using th by (simp add: flaky_node_def numeral_2_eq_2)
  have b: "GetBlock_op flaky_node (\<lambda>resp. Inr ''h'') (\<lambda>resp. Inr example_block) 7 0
       = (Inr example_block, 3)"
    using th h w v by simp
  from a h w b show ?thesis by blast
qed

section \<open>EnrichBlockWithPrevOuts\<close>

lemma index_Vout_in_range: "i < length vouts \<Longrightarrow> index_Vout vouts i = Some (vouts ! i)"
  by (simp add: index_Vout_def)

lemma enrich_vin_result:
  "\<exists>vin'. enrich_vin get vin = Inr vin'
     \<and> (vin' = vin
        \<or> (\<exists>prevTx. get (vin_Txid vin) = Inr prevTx
              \<and> unat (vin_Vout vin) < length (tx_Vout prevTx)
              \<and> vin' = vin\<lparr>vin_PrevOut :=
                     Some \<lparr>prevout_Value = vout_Value (tx_Vout prevTx ! unat (vin_Vout vin)),
                           prevout_ScriptPubKey =
                             vout_ScriptPubKey (tx_Vout prevTx ! unat (vin_Vout vin))\<rparr>\<rparr>))"
  by (cases "get (vin_Txid vin)") (auto simp: enrich_vin_def index_Vout_in_range)

lemma enrich_vins_result:
  "\<exists>vins'. enrich_vins f j vins = Inr vins' \<and> length vins' = length vins
      \<and> (\<forall>k < length vins. enrich_vin (f (j + k)) (vins ! k) = Inr (vins' ! k))"
proof (induction vins arbitrary: j)
  case Nil
  then show ?case by simp
next
  case (Cons vin vins)
  obtain vin' where v: "enrich_vin (f j) vin = Inr vin'"
    using enrich_vin_result[of "f j" vin] by blast
  obtain vins' where vs: "enrich_vins f (Suc j) vins = Inr vins'" "length vins' = length vins"
      "\<forall>k < length vins. enrich_vin (f (Suc j + k)) (vins ! k) = Inr (vins' ! k)"
    using Cons.IH[of "Suc j"] by blast
  have "enrich_vins f j (vin # vins) = Inr (vin' # vins')"
    by (simp add: v vs(1))
  moreover have "\<forall>k < length (vin # vins).
      enrich_vin (f (j + k)) ((vin # vins) ! k) = Inr ((vin' # vins') ! k)"
  proof (intro allI impI)
    fix k assume "k < length (vin # vins)"
    then show "enrich_vin (f (j + k)) ((vin # vins) ! k) = Inr ((vin' # vins') ! k)"
      using v vs(3) by (cases k) auto
  qed
  ultimately show ?case using vs(2) by simp
qed

lemma enrich_tx_result:
  "\<exists>tx'. enrich_tx f tx = Inr tx'
     \<and> tx' = tx\<lparr>tx_Vin := tx_Vin tx'\<rparr>
     \<and> length (tx_Vin tx') = length (tx_Vin tx)
     \<and> (IsCoinbase tx \<or> HasPrevOutData tx \<longrightarrow> tx' = tx)
     \<and> (\<forall>j < length (tx_Vin tx).
           tx_Vin tx' ! j = tx_Vin tx ! j
           \<or> enrich_vin (f j) (tx_Vin tx ! j) = Inr (tx_Vin tx' ! j))"
proof (cases "IsCoinbase tx \<or> HasPrevOutData tx")
  case True
  then have "enrich_tx f tx = Inr tx" by (auto simp: enrich_tx_def)
  then show ?thesis by simp
next
  case False
  obtain vins' where vs: "enrich_vins f 0 (tx_Vin tx) = Inr vins'"
      "length vins' = length (tx_Vin tx)"
      "\<forall>k < length (tx_Vin tx). enrich_vin (f (0 + k)) (tx_Vin tx ! k) = Inr (vins' ! k)"
    using enrich_vins_result[of f 0 "tx_Vin tx"] by blast
  have "enrich_tx f tx = Inr (tx\<lparr>tx_Vin := vins'\<rparr>)"
    using False by (simp add: enrich_tx_def vs(1))
  then show ?thesis using False vs(2,3) by simp
qed

lemma enrich_txs_result:
  "\<exists>txs'. enrich_txs fetch i txs = Inr txs' \<and> length txs' = length txs
      \<and> (\<forall>k < length txs. enrich_tx (fetch (i + k)) (txs ! k) = Inr (txs' ! k))"
proof (induction txs arbitrary: i)
  case Nil
  then show ?case by simp
next
  case (Cons tx txs)
  obtain tx' where t: "enrich_tx (fetch i) tx = Inr tx'"
    using enrich_tx_result[of "fetch i" tx] by blast
  obtain txs' where ts: "enrich_txs fetch (Suc i) txs = Inr txs'" "length txs' = length txs"
      "\<forall>k < length txs. enrich_tx (fetch (Suc i + k)) (txs ! k) = Inr (txs' ! k)"
    using Cons.IH[of "Suc i"] by blast
  have "enrich_txs fetch i (tx # txs) = Inr (tx' # txs')"
    by (simp add: t ts(1))
  moreover have "\<forall>k < length (tx # txs).
      enrich_tx (fetch (i + k)) ((tx # txs) ! k) = Inr ((tx' # txs') ! k)"
  proof (intro allI impI)
    fix k assume "k < length (tx # txs)"
    then show "enrich_tx (fetch (i + k)) ((tx # txs) ! k) = Inr ((tx' # txs') ! k)"
      using t ts(3) by (cases k) auto
  qed
  ultimately show ?case using ts(2) by simp
qed

lemma EnrichBlockWithPrevOuts_result:
  "\<exists>b'. EnrichBlockWithPrevOuts fetch (Some b) = Inr b'
     \<and> b' = b\<lparr>blk_Tx := blk_Tx b'\<rparr>
     \<and> length (blk_Tx b') = length (blk_Tx b)
     \<and> (\<forall>i < length (blk_Tx b). enrich_tx (fetch i) (blk_Tx b ! i) = Inr (blk_Tx b' ! i))"
proof -
  obtain txs' where ts: "enrich_txs fetch 0 (blk_Tx b) = Inr txs'"
      "length txs' = length (blk_Tx b)"
      "\<forall>k < length (blk_Tx b). enrich_tx (fetch (0 + k)) (blk_Tx b ! k) = Inr (txs' ! k)"
    using enrich_txs_result[of fetch 0 "blk_Tx b"] by blast
  have "EnrichBlockWithPrevOuts fetch (Some b) = Inr (b\<lparr>blk_Tx := txs'\<rparr>)"
    by (simp add: EnrichBlockWithPrevOuts_def ts(1))
  then show ?thesis using ts(2,3) by simp
qed

text \<open>
  Claim C8: for every non-nil block and whatever the calls return,
  \<open>EnrichBlockWithPrevOuts\<close> returns nil (it neither returns an error nor
  panics on an index). Every input of the block is either left as it was, or
  the call for it returned a previous transaction \<open>prevTx\<close> with
  \<open>vin.Vout < len(prevTx.Vout)\<close> and its \<open>PrevOut\<close> is now the value and script of
  \<open>prevTx.Vout[vin.Vout]\<close>. In particular an input whose call failed and an
  input whose index is out of range are left as they were.
\<close>

theorem EnrichBlockWithPrevOuts_guarded_assignment:
  "\<exists>b'. EnrichBlockWithPrevOuts fetch (Some b) = Inr b'
     \<and> length (blk_Tx b') = length (blk_Tx b)
     \<and> (\<forall>i < length (blk_Tx b).
          length (tx_Vin (blk_Tx b' ! i)) = length (tx_Vin (blk_Tx b ! i))
          \<and> (\<forall>j < length (tx_Vin (blk_Tx b ! i)).
               let vin = tx_Vin (blk_Tx b ! i) ! j; vin' = tx_Vin (blk_Tx b' ! i) ! j in
                 (vin' = vin
                  \<or> (\<exists>prevTx. fetch i j (vin_Txid vin) = Inr prevTx
                        \<and> unat (vin_Vout vin) < length (tx_Vout prevTx)
                        \<and> vin' = vin\<lparr>vin_PrevOut :=
                             Some \<lparr>prevout_Value = vout_Value (tx_Vout prevTx ! unat (vin_Vout vin)),
                                   prevout_ScriptPubKey =
                                     vout_ScriptPubKey (tx_Vout prevTx ! unat (vin_Vout vin))\<rparr>\<rparr>))
                 \<and> ((\<exists>err. fetch i j (vin_Txid vin) = Inl err) \<longrightarrow> vin' = vin)
                 \<and> ((\<exists>prevTx. fetch i j (vin_Txid vin) = Inr prevTx
                        \<and> length (tx_Vout prevTx) \<le> unat (vin_Vout vin)) \<longrightarrow> vin' = vin)))"
proof -
  obtain b' where b': "EnrichBlockWithPrevOuts fetch (Some b) = Inr b'"
      "length (blk_Tx b') = length (blk_Tx b)"
      "\<forall>i < length (blk_Tx b). enrich_tx (fetch i) (blk_Tx b ! i) = Inr (blk_Tx b' ! i)"
    using EnrichBlockWithPrevOuts_result[of fetch b] by blast
  have per_tx: "length (tx_Vin (blk_Tx b' ! i)) = length (tx_Vin (blk_Tx b ! i))
          \<and> (\<forall>j < length (tx_Vin (blk_Tx b ! i)).
               let vin = tx_Vin (blk_Tx b ! i) ! j; vin' = tx_Vin (blk_Tx b' ! i) ! j in
                 (vin' = vin
                  \<or> (\<exists>prevTx. fetch i j (vin_Txid vin) = Inr prevTx
                        \<and> unat (vin_Vout vin) < length (tx_Vout prevTx)
                        \<and> vin' = vin\<lparr>vin_PrevOut :=
                             Some \<lparr>prevout_Value = vout_Value (tx_Vout prevTx ! unat (vin_Vout vin)),
                                   prevout_ScriptPubKey =
                                     vout_ScriptPubKey (tx_Vout prevTx ! unat (vin_Vout vin))\<rparr>\<rparr>))
                 \<and> ((\<exists>err. fetch i j (vin_Txid vin) = Inl err) \<longrightarrow> vin' = vin)
                 \<and> ((\<exists>prevTx. fetch i j (vin_Txid vin) = Inr prevTx
                        \<and> length (tx_Vout prevTx) \<le> unat (vin_Vout vin)) \<longrightarrow> vin' = vin))"
    if i: "i < length (blk_Tx b)" for i
  proof -
    let ?tx = "blk_Tx b ! i" and ?tx' = "blk_Tx b' ! i"
    from b'(3) i have e: "enrich_tx (fetch i) ?tx = Inr ?tx'" by blast
    from enrich_tx_result[of "fetch i" ?tx] e
    have len: "length (tx_Vin ?tx') = length (tx_Vin ?tx)"
      and vins: "\<forall>j < length (tx_Vin ?tx). tx_Vin ?tx' ! j = tx_Vin ?tx ! j
           \<or> enrich_vin (fetch i j) (tx_Vin ?tx ! j) = Inr (tx_Vin ?tx' ! j)"
      by auto
    have "(let vin = tx_Vin ?tx ! j; vin' = tx_Vin ?tx' ! j in
                 (vin' = vin
                  \<or> (\<exists>prevTx. fetch i j (vin_Txid vin) = Inr prevTx
                        \<and> unat (vin_Vout vin) < length (tx_Vout prevTx)
                        \<and> vin' = vin\<lparr>vin_PrevOut :=
                             Some \<lparr>prevout_Value = vout_Value (tx_Vout prevTx ! unat (vin_Vout vin)),
                                   prevout_ScriptPubKey =
                                     vout_ScriptPubKey (tx_Vout prevTx ! unat (vin_Vout vin))\<rparr>\<rparr>))
                 \<and> ((\<exists>err. fetch i j (vin_Txid vin) = Inl err) \<longrightarrow> vin' = vin)
                 \<and> ((\<exists>prevTx. fetch i j (vin_Txid vin) = Inr prevTx
                        \<and> length (tx_Vout prevTx) \<le> unat (vin_Vout vin)) \<longrightarrow> vin' = vin))"
      if j: "j < length (tx_Vin ?tx)" for j
    proof -
      from vins j have "tx_Vin ?tx' ! j = tx_Vin ?tx ! j
           \<or> enrich_vin (fetch i j) (tx_Vin ?tx ! j) = Inr (tx_Vin ?tx' ! j)" by blast
      with enrich_vin_result[of "fetch i j" "tx_Vin ?tx ! j"]
      show ?thesis unfolding Let_def by (elim disjE exE conjE) auto
    qed
    with len show ?thesis by blast
  qed
  from b'(1,2) per_tx show ?thesis by blast
qed

lemma example_block_Tx: "blk_Tx example_block = [coinbase_tx, spend_tx, unresolved_tx]"
  by (simp add: example_block_def)

theorem EnrichBlockWithPrevOuts_guarded_assignment_witness:
  "example_fetch 2 2 (vin_Txid (tx_Vin (blk_Tx example_block ! 2) ! 2))
      = Inl ''No such mempool or blockchain transaction''
   \<and> example_fetch 2 1 (vin_Txid (tx_Vin (blk_Tx example_block ! 2) ! 1)) = Inr prev_tx
   \<and> length (tx_Vout prev_tx) \<le> unat (vin_Vout (tx_Vin (blk_Tx example_block ! 2) ! 1))
   \<and> (\<exists>b'. EnrichBlockWithPrevOuts example_fetch (Some example_block) = Inr b'
         \<and> tx_Vin (blk_Tx b' ! 2) ! 2 = tx_Vin (blk_Tx example_block ! 2) ! 2
         \<and> tx_Vin (blk_Tx b' ! 2) ! 1 = tx_Vin (blk_Tx example_block ! 2) ! 1)"
proof -
  let ?vins = "tx_Vin (blk_Tx example_block ! 2)"
  have f2: "example_fetch 2 2 (vin_Txid (?vins ! 2)) = Inl ''No such mempool or blockchain transaction''"
    by (simp add: example_block_Tx example_defs example_fetch_def)
  have f1: "example_fetch 2 1 (vin_Txid (?vins ! 1)) = Inr prev_tx"
    by (simp add: example_block_Tx example_fetch_def unresolved_tx_def example_tx_def example_vin_def)
  have r1: "length (tx_Vout prev_tx) \<le> unat (vin_Vout (?vins ! 1))"
    by (simp add: example_block_Tx example_defs)
  have i: "2 < length (blk_Tx example_block)" by (simp add: example_block_Tx)
  have j: "1 < length ?vins" "2 < length ?vins"
    by (simp_all add: example_block_Tx example_defs)
  from EnrichBlockWithPrevOuts_guarded_assignment [of example_fetch example_block]
  obtain b' where b': "EnrichBlockWithPrevOuts example_fetch (Some example_block) = Inr b'"
    and all: "\<forall>i < length (blk_Tx example_block).
          length (tx_Vin (blk_Tx b' ! i)) = length (tx_Vin (blk_Tx example_block ! i))
          \<and> (\<forall>j < length (tx_Vin (blk_Tx example_block ! i)).
               let vin = tx_Vin (blk_Tx example_block ! i) ! j; vin' = tx_Vin (blk_Tx b' ! i) ! j in
                 (vin' = vin
                  \<or> (\<exists>prevTx. example_fetch i j (vin_Txid vin) = Inr prevTx
                        \<and> unat (vin_Vout vin) < length (tx_Vout prevTx)
                        \<and> vin' = vin\<lparr>vin_PrevOut :=
                             Some \<lparr>prevout_Value = vout_Value (tx_Vout prevTx ! unat (vin_Vout vin)),
                                   prevout_ScriptPubKey =
                                     vout_ScriptPubKey (tx_Vout prevTx ! unat (vin_Vout vin))\<rparr>\<rparr>))
                 \<and> ((\<exists>err. example_fetch i j (vin_Txid vin) = Inl err) \<longrightarrow> vin' = vin)
                 \<and> ((\<exists>prevTx. example_fetch i j (vin_Txid vin) = Inr prevTx
                        \<and> length (tx_Vout prevTx) \<le> unat (vin_Vout vin)) \<longrightarrow> vin' = vin))"
    by blast
  from all i j(2) f2 have "tx_Vin (blk_Tx b' ! 2) ! 2 = ?vins ! 2"
    unfolding Let_def by blast
  moreover from all i j(1) f1 r1 have "tx_Vin (blk_Tx b' ! 2) ! 1 = ?vins ! 1"
    unfolding Let_def by blast
  ultimately show ?thesis using f2 f1 r1 b' by blast
qed

text \<open>
  Claim C9: for every non-nil block, \<open>EnrichBlockWithPrevOuts\<close> returns nil and
  leaves a block that differs from the one on entry at most in the \<open>PrevOut\<close>
  fields of inputs: every field of the block but \<open>Tx\<close> is unchanged, the number
  of transactions is unchanged, every field of every transaction but \<open>Vin\<close> (so
  its txid and its outputs) is unchanged, the number of inputs is unchanged,
  every field of every input but \<open>PrevOut\<close> is unchanged, and a transaction that
  is coinbase or had prevOut data on entry is unchanged altogether.
\<close>

theorem EnrichBlockWithPrevOuts_frame:
  "\<exists>b'. EnrichBlockWithPrevOuts fetch (Some b) = Inr b'
     \<and> b' = b\<lparr>blk_Tx := blk_Tx b'\<rparr>
     \<and> length (blk_Tx b') = length (blk_Tx b)
     \<and> (\<forall>i < length (blk_Tx b).
          let tx = blk_Tx b ! i; tx' = blk_Tx b' ! i in
            tx' = tx\<lparr>tx_Vin := tx_Vin tx'\<rparr>
            \<and> length (tx_Vin tx') = length (tx_Vin tx)
            \<and> (\<forall>j < length (tx_Vin tx).
                  tx_Vin tx' ! j = (tx_Vin tx ! j)\<lparr>vin_PrevOut := vin_PrevOut (tx_Vin tx' ! j)\<rparr>)
            \<and> (IsCoinbase tx \<or> HasPrevOutData tx \<longrightarrow> tx' = tx))"
proof -
  obtain b' where b': "EnrichBlockWithPrevOuts fetch (Some b) = Inr b'"
      "b' = b\<lparr>blk_Tx := blk_Tx b'\<rparr>"
      "length (blk_Tx b') = length (blk_Tx b)"
      "\<forall>i < length (blk_Tx b). enrich_tx (fetch i) (blk_Tx b ! i) = Inr (blk_Tx b' ! i)"
    using EnrichBlockWithPrevOuts_result[of fetch b] by blast
  have per_tx: "(let tx = blk_Tx b ! i; tx' = blk_Tx b' ! i in
            tx' = tx\<lparr>tx_Vin := tx_Vin tx'\<rparr>
            \<and> length (tx_Vin tx') = length (tx_Vin tx)
            \<and> (\<forall>j < length (tx_Vin tx).
                  tx_Vin tx' ! j = (tx_Vin tx ! j)\<lparr>vin_PrevOut := vin_PrevOut (tx_Vin tx' ! j)\<rparr>)
            \<and> (IsCoinbase tx \<or> HasPrevOutData tx \<longrightarrow> tx' = tx))"
    if i: "i < length (blk_Tx b)" for i
  proof -
    let ?tx = "blk_Tx b ! i" and ?tx' = "blk_Tx b' ! i"
    from b'(4) i have e: "enrich_tx (fetch i) ?tx = Inr ?tx'" by blast
    from enrich_tx_result[of "fetch i" ?tx] e
    have fr: "?tx' = ?tx\<lparr>tx_Vin := tx_Vin ?tx'\<rparr>"
      and len: "length (tx_Vin ?tx') = length (tx_Vin ?tx)"
      and skip: "IsCoinbase ?tx \<or> HasPrevOutData ?tx \<longrightarrow> ?tx' = ?tx"
      and vins: "\<forall>j < length (tx_Vin ?tx). tx_Vin ?tx' ! j = tx_Vin ?tx ! j
           \<or> enrich_vin (fetch i j) (tx_Vin ?tx ! j) = Inr (tx_Vin ?tx' ! j)"
      by auto
    have "tx_Vin ?tx' ! j = (tx_Vin ?tx ! j)\<lparr>vin_PrevOut := vin_PrevOut (tx_Vin ?tx' ! j)\<rparr>"
      if j: "j < length (tx_Vin ?tx)" for j
    proof -
      from vins j have "tx_Vin ?tx' ! j = tx_Vin ?tx ! j
           \<or> enrich_vin (fetch i j) (tx_Vin ?tx ! j) = Inr (tx_Vin ?tx' ! j)" by blast
      with enrich_vin_result[of "fetch i j" "tx_Vin ?tx ! j"]
      show ?thesis by (elim disjE exE conjE) auto
    qed
    with fr len skip show ?thesis unfolding Let_def by blast
  qed
  from b'(1,2,3) per_tx show ?thesis by blast
qed

theorem EnrichBlockWithPrevOuts_frame_witness:
  "IsCoinbase (blk_Tx example_block ! 0) \<and> HasPrevOutData (blk_Tx example_block ! 1)
   \<and> (\<exists>b'. EnrichBlockWithPrevOuts example_fetch (Some example_block) = Inr b'
         \<and> blk_Tx b' ! 0 = coinbase_tx \<and> blk_Tx b' ! 1 = spend_tx
         \<and> blk_Hash b' = ''h'' \<and> blk_Height b' = 7
         \<and> tx_Txid (blk_Tx b' ! 2) = ''t5''
         \<and> tx_Vout (blk_Tx b' ! 2) = tx_Vout unresolved_tx)"
proof -
  have c: "IsCoinbase (blk_Tx example_block ! 0)"
    by (simp add: example_block_Tx example_defs IsCoinbase_def)
  have p: "HasPrevOutData (blk_Tx example_block ! 1)"
    by (simp add: example_block_Tx example_defs IsCoinbase_def HasPrevOutData_def)
  have i: "0 < length (blk_Tx example_block)" "1 < length (blk_Tx example_block)"
    "2 < length (blk_Tx example_block)"
    by (simp_all add: example_block_Tx)
  from EnrichBlockWithPrevOuts_frame [of example_fetch example_block]
  obtain b' where b': "EnrichBlockWithPrevOuts example_fetch (Some example_block) = Inr b'"
    and blk: "b' = example_block\<lparr>blk_Tx := blk_Tx b'\<rparr>"
    and all: "\<forall>i < length (blk_Tx example_block).
          let tx = blk_Tx example_block ! i; tx' = blk_Tx b' ! i in
            tx' = tx\<lparr>tx_Vin := tx_Vin tx'\<rparr>
            \<and> length (tx_Vin tx') = length (tx_Vin tx)
            \<and> (\<forall>j < length (tx_Vin tx).
                  tx_Vin tx' ! j = (tx_Vin tx ! j)\<lparr>vin_PrevOut := vin_PrevOut (tx_Vin tx' ! j)\<rparr>)
            \<and> (IsCoinbase tx \<or> HasPrevOutData tx \<longrightarrow> tx' = tx)"
    by blast
  from all i(1) c have t0: "blk_Tx b' ! 0 = blk_Tx example_block ! 0"
    unfolding Let_def by blast
  from all i(2) p have t1: "blk_Tx b' ! 1 = blk_Tx example_block ! 1"
    unfolding Let_def by blast
  from all i(3) have t2: "blk_Tx b' ! 2 = (blk_Tx example_block ! 2)\<lparr>tx_Vin := tx_Vin (blk_Tx b' ! 2)\<rparr>"
    unfolding Let_def by blast
  have hd: "blk_Hash b' = ''h''" "blk_Height b' = 7"
    by (subst blk, simp add: example_block_def)+
  have tx2: "tx_Txid (blk_Tx b' ! 2) = ''t5''" "tx_Vout (blk_Tx b' ! 2) = tx_Vout unresolved_tx"
    by (subst t2, simp add: example_block_Tx unresolved_tx_def example_tx_def)+
  from t0 t1 have "blk_Tx b' ! 0 = coinbase_tx" "blk_Tx b' ! 1 = spend_tx"
    by (simp_all add: example_block_Tx)
  with c p b' hd tx2 show ?thesis by blast
qed

section \<open>GetBlocks and GetBlocksByNumbers\<close>

text \<open>
  The loop of \<open>GetBlocks\<close> leaves through its test only when \<open>to\<close> is below the
  largest \<open>uint64\<close>: for \<open>to = 2^64 - 1\<close> the test \<open>n <= to\<close> is always true and
  \<open>n++\<close> wraps around, so the call never returns a result.
\<close>

lemma GetBlocks_loop_returns_only_below_max:
  assumes "GetBlocks_loop rt n to nums = Some (Inr result)"
  shows "to \<noteq> - 1"
proof -
  have "(\<exists>r. Inr result = (Inr r :: crash + uint64_slice)) \<longrightarrow> to \<noteq> - 1"
  proof (rule GetBlocks_loop.raw_induct
           [where P = "\<lambda>rt n to nums y. (\<exists>r. y = Inr r) \<longrightarrow> to \<noteq> - 1", OF _ assms])
    fix loop :: "go_runtime \<Rightarrow> 64 word \<Rightarrow> 64 word \<Rightarrow> uint64_slice \<Rightarrow> (crash + uint64_slice) option"
    fix rt :: go_runtime and n to :: "64 word" and nums :: uint64_slice
      and y :: "crash + uint64_slice"
    assume IH: "\<And>rt n to nums y. loop rt n to nums = Some y \<Longrightarrow> (\<exists>r. y = Inr r) \<longrightarrow> to \<noteq> - 1"
      and step: "(if n \<le> to
                  then (case append_uint64 rt nums n of
                          Inl c \<Rightarrow> Some (Inl c)
                        | Inr nums' \<Rightarrow> loop rt (n + 1) to nums')
                  else Some (Inr nums)) = Some y"
    show "(\<exists>r. y = Inr r) \<longrightarrow> to \<noteq> - 1"
    proof (cases "n \<le> to")
      case True
      show ?thesis
      proof (cases "append_uint64 rt nums n")
        case (Inl c)
        with True step have "y = Inl c" by simp
        then show ?thesis by simp
      next
        case (Inr nums')
        with True step have "loop rt (n + 1) to nums' = Some y" by simp
        then show ?thesis by (rule IH)
      qed
    next
      case False
      then show ?thesis by auto
    qed
  qed
  then show ?thesis by simp
qed

lemma GetBlocks_max_never_returns:
  "GetBlocks rt pool_alloc getBlock ctxErr from (- 1) \<noteq> Some (Inr r)"
proof
  assume r: "GetBlocks rt pool_alloc getBlock ctxErr from (- 1) = Some (Inr r)"
  have "\<not> (- 1 :: 64 word) < from" by simp
  with r obtain nums0 nums where
    "GetBlocks_loop rt from (- 1) nums0 = Some (Inr nums)"
    by (auto simp: GetBlocks_def split: sum.splits option.splits)
  then show False using GetBlocks_loop_returns_only_below_max by blast
qed

lemma GetBlocks_loop_below_max:
  assumes "to \<noteq> - 1" "unat n \<le> Suc (unat to)"
    and "length elems + (Suc (unat to) - unat n) \<le> cap"
  shows "GetBlocks_loop rt n to (elems, cap)
           = Some (Inr (elems @ map word_of_nat [unat n ..< Suc (unat to)], cap))"
  using assms
proof (induction "Suc (unat to) - unat n" arbitrary: n elems)
  case 0
  then have "unat n = Suc (unat to)" by simp
  then have "\<not> n \<le> to" by (simp add: word_le_nat_alt)
  then show ?case using \<open>unat n = Suc (unat to)\<close>
    by (subst GetBlocks_loop.simps) simp
next
  case (Suc k)
  then have le: "n \<le> to" by (simp add: word_le_nat_alt)
  have "n \<noteq> - 1" using le Suc.prems(1)
    by (metis word_order.extremum_unique)
  then have "1 + n \<noteq> 0" by (simp add: add_eq_0_iff)
  then have un: "unat (n + 1) = Suc (unat n)"
    using unatSuc[of n] by (simp add: add.commute)
  have k: "k = Suc (unat to) - unat (n + 1)" using Suc.hyps(2) un by simp
  have b: "unat (n + 1) \<le> Suc (unat to)" using le un by (simp add: word_le_nat_alt)
  have room: "length elems < cap" using Suc.hyps(2) Suc.prems(3) by simp
  have room': "length (elems @ [n]) + (Suc (unat to) - unat (n + 1)) \<le> cap"
    using Suc.hyps(2) Suc.prems(3) un by simp
  have app: "append_uint64 rt (elems, cap) n = Inr (elems @ [n], cap)"
    using room by (simp add: append_uint64_def)
  have "GetBlocks_loop rt n to (elems, cap) = GetBlocks_loop rt (n + 1) to (elems @ [n], cap)"
    using le app by (subst GetBlocks_loop.simps) simp
  also have "\<dots> = Some (Inr ((elems @ [n]) @ map word_of_nat [unat (n + 1) ..< Suc (unat to)], cap))"
    using Suc.hyps(1)[OF k Suc.prems(1) b room'] .
  also have "(elems @ [n]) @ map word_of_nat [unat (n + 1) ..< Suc (unat to)]
      = elems @ map word_of_nat [unat n ..< Suc (unat to)]"
  proof -
    have "[unat n ..< Suc (unat to)] = unat n # [Suc (unat n) ..< Suc (unat to)]"
      using le by (simp add: word_le_nat_alt upt_conv_Cons)
    then show ?thesis by (simp add: un)
  qed
  finally show ?case .
qed

lemma span_capacity:
  fixes "from" to :: "64 word"
  assumes "from \<le> to" "to \<noteq> - 1"
  shows "unat (to - from + 1) = unat to - unat from + 1"
proof -
  have sub: "unat (to - from) = unat to - unat from"
    using assms(1) by (simp add: unat_sub)
  have "to - from \<le> to" using assms(1) by (simp add: word_sub_le)
  then have "to - from \<noteq> - 1" using assms(2)
    by (metis word_order.extremum_unique)
  then have "1 + (to - from) \<noteq> 0" by (simp add: add_eq_0_iff)
  then have "unat (to - from + 1) = Suc (unat (to - from))"
    using unatSuc[of "to - from"] by (simp add: add.commute)
  with sub show ?thesis by simp
qed

text \<open>
  A span too large for one slice ends in the panic of \<open>make\<close>, before any block
  is fetched.
\<close>

lemma GetBlocks_large_span_panics:
  assumes "from \<le> to"
    and "2 ^ 64 \<le> 8 * unat (to - from + 1) \<or> maxAlloc rt < 8 * unat (to - from + 1)"
  shows "GetBlocks rt pool_alloc getBlock ctxErr from to = Some (Inl PanicMakesliceCap)"
proof -
  from assms(1) have "\<not> to < from" by simp
  moreover from assms(2) have "make_uint64_slice rt (to - from + 1) = Inl PanicMakesliceCap"
    by (auto simp: make_uint64_slice_def Let_def)
  ultimately show ?thesis by (simp add: GetBlocks_def)
qed

lemma GetBlocks_example_large_span:
  "GetBlocks example_runtime pool_alloc getBlock ctxErr 0 (2 ^ 60) = Some (Inl PanicMakesliceCap)"
proof -
  have "unat ((2 ^ 60 :: 64 word) - 0 + 1) = 2 ^ 60 + 1"
    using span_capacity[of 0 "2 ^ 60 :: 64 word"] by simp
  then show ?thesis
    by (intro GetBlocks_large_span_panics) (simp_all add: example_runtime_def)
qed

lemma firstErr_loop_not_invalid_range:
  "firstErr_loop blocks \<noteq> Some (Errorf ''invalid range'')"
  by (induction blocks) (auto split: option.splits)

lemma GetBlocksByNumbers_not_invalid_range:
  "GetBlocksByNumbers pool_alloc getBlock ctxErr nums \<noteq> Inr (res, Some (Errorf ''invalid range''))"
  using firstErr_loop_not_invalid_range
  by (auto simp: GetBlocksByNumbers_def Let_def split: if_splits option.splits)

text \<open>
  Claim C10, as stated: \<open>GetBlocks\<close> returns an error exactly when \<open>to < from\<close>.
  For a valid range the function returns what \<open>GetBlocksByNumbers\<close> returns,
  and that includes an error when a block could not be fetched: with
  \<open>from = to = 0\<close> and a failing fetch the result carries an error.
\<close>

theorem GetBlocks_error_on_valid_range_counterexample:
  "\<not> ((0::64 word) < 0)
   \<and> GetBlocks example_runtime (\<lambda>len. None) (\<lambda>i n. (Inl ''boom'' :: string + unit))
        (None :: string option) 0 0
       = Some (Inr (Some [\<lparr>Number = 0, Block = None,
                            Error = Some \<lparr>ErrorType = ErrorTypeUnknown, Message = ''boom''\<rparr>\<rparr>],
                    Some (Errorf ''block 0: boom'')))"
proof -
  have m: "make_uint64_slice example_runtime (0 - 0 + 1) = Inr ([], 1)"
    by (simp add: make_uint64_slice_def example_runtime_def)
  have "GetBlocks_loop example_runtime 0 0 ([], 1) = Some (Inr ([0], 1))"
    using GetBlocks_loop_below_max[of 0 0 "[]" 1 example_runtime] by simp
  with m show ?thesis
    by (simp add: GetBlocks_def GetBlocksByNumbers_def block_result_def enumerate_eq_zip
          show_nat.simps digit_char_def)
qed

text \<open>
  Claim C10, amended: \<open>GetBlocks\<close> returns the error \<open>invalid range\<close> (and no
  result) when \<open>to < from\<close>, and it returns that error in no other case. When
  \<open>from \<le> to\<close>, \<open>to\<close> is below \<open>2^64 - 1\<close> and the slice of capacity \<open>to-from+1\<close>
  can be made (its \<open>8 * (to-from+1)\<close> bytes fit in 64 bits, do not exceed the run
  time's \<open>maxAlloc\<close> and can be allocated), it ends as the call of
  \<open>GetBlocksByNumbers\<close> on the heights \<open>from, from + 1, ..., to\<close> in ascending
  order ends, an error of that call included. \<open>GetBlocksByNumbers\<close> on the
  empty list returns a nil slice and a nil error.
\<close>

theorem GetBlocks_spec:
  "(to < from \<longrightarrow>
      GetBlocks rt pool_alloc getBlock ctxErr from to
        = Some (Inr (None, Some (Errorf ''invalid range''))))
   \<and> (GetBlocks rt pool_alloc getBlock ctxErr from to
         = Some (Inr (res, Some (Errorf ''invalid range''))) \<longrightarrow> to < from)
   \<and> (from \<le> to \<and> to \<noteq> - 1
        \<and> 8 * (unat to - unat from + 1) < 2 ^ 64
        \<and> 8 * (unat to - unat from + 1) \<le> maxAlloc rt
        \<and> mallocgc_ok rt (8 * (unat to - unat from + 1)) \<longrightarrow>
        GetBlocks rt pool_alloc getBlock ctxErr from to =
          Some (GetBlocksByNumbers pool_alloc getBlock ctxErr
                  (map word_of_nat [unat from ..< Suc (unat to)])))
   \<and> GetBlocksByNumbers pool_alloc getBlock ctxErr [] = Inr (None, None)"
proof -
  have a: "GetBlocks rt pool_alloc getBlock ctxErr from to
             = Some (Inr (None, Some (Errorf ''invalid range'')))"
    if "to < from"
    using that by (simp add: GetBlocks_def)
  have c: "GetBlocks rt pool_alloc getBlock ctxErr from to =
          Some (GetBlocksByNumbers pool_alloc getBlock ctxErr
                  (map word_of_nat [unat from ..< Suc (unat to)]))"
    if le: "from \<le> to" and nm: "to \<noteq> - 1"
      and fits: "8 * (unat to - unat from + 1) < 2 ^ 64"
      and small: "8 * (unat to - unat from + 1) \<le> maxAlloc rt"
      and alloc: "mallocgc_ok rt (8 * (unat to - unat from + 1))"
  proof -
    have cap: "unat (to - from + 1) = unat to - unat from + 1"
      using le nm by (rule span_capacity)
    have mk: "make_uint64_slice rt (to - from + 1) = Inr ([], unat to - unat from + 1)"
      using fits small alloc by (simp add: make_uint64_slice_def Let_def cap)
    from le have ule: "unat from \<le> unat to" by (simp add: word_le_nat_alt)
    then have b: "unat from \<le> Suc (unat to)"
      and room: "length ([] :: 64 word list) + (Suc (unat to) - unat from) \<le> unat to - unat from + 1"
      by simp_all
    from GetBlocks_loop_below_max[OF nm b room, of rt]
    have loop: "GetBlocks_loop rt from to ([], unat to - unat from + 1)
        = Some (Inr (map word_of_nat [unat from ..< Suc (unat to)], unat to - unat from + 1))"
      by (simp only: append_Nil)
    from le have nlt: "\<not> to < from" by simp
    show ?thesis
      unfolding GetBlocks_def
      by (simp only: nlt if_False mk loop sum.case option.case fst_conv)
  qed
  have b: "to < from"
    if r: "GetBlocks rt pool_alloc getBlock ctxErr from to
             = Some (Inr (res, Some (Errorf ''invalid range'')))"
  proof (rule ccontr)
    assume "\<not> to < from"
    with r obtain nums where
      "GetBlocksByNumbers pool_alloc getBlock ctxErr nums = Inr (res, Some (Errorf ''invalid range''))"
      by (auto simp: GetBlocks_def split: sum.splits option.splits)
    then show False using GetBlocksByNumbers_not_invalid_range by blast
  qed
  have d: "GetBlocksByNumbers pool_alloc getBlock ctxErr [] = Inr (None, None)"
    by (simp add: GetBlocksByNumbers_def)
  from a b c d show ?thesis by blast
qed

theorem GetBlocks_spec_witness:
  "(3::64 word) < 5 \<and> (5::64 word) \<noteq> - 1
   \<and> 8 * (unat (5::64 word) - unat (3::64 word) + 1) \<le> maxAlloc example_runtime
   \<and> mallocgc_ok example_runtime (8 * (unat (5::64 word) - unat (3::64 word) + 1))
   \<and> GetBlocks example_runtime (\<lambda>len. None) (\<lambda>i n. (Inr () :: string + unit))
        (None :: string option) 5 3
       = Some (Inr (None, Some (Errorf ''invalid range'')))
   \<and> GetBlocks example_runtime (\<lambda>len. None) (\<lambda>i n. (Inr () :: string + unit))
        (None :: string option) 3 5
       = Some (Inr (Some [\<lparr>Number = 3, Block = Some (), Error = None\<rparr>,
                          \<lparr>Number = 4, Block = Some (), Error = None\<rparr>,
                          \<lparr>Number = 5, Block = Some (), Error = None\<rparr>], None))"
proof -
  have lt: "(3::64 word) < 5" and le: "(3::64 word) \<le> 5" and nm: "(5::64 word) \<noteq> - 1"
    by simp_all
  have fits: "8 * (unat (5::64 word) - unat (3::64 word) + 1) < (2::nat) ^ 64" by simp
  have small: "8 * (unat (5::64 word) - unat (3::64 word) + 1) \<le> maxAlloc example_runtime"
    by (simp add: example_runtime_def)
  have alloc: "mallocgc_ok example_runtime (8 * (unat (5::64 word) - unat (3::64 word) + 1))"
    by (simp add: example_runtime_def)
  have up: "[unat (3::64 word) ..< Suc (unat (5::64 word))] = [3, 4, 5]"
    by (simp add: upt_rec)
  note t1 = GetBlocks_spec [of 3 5 example_runtime "\<lambda>len. None"
                               "\<lambda>i n. (Inr () :: string + unit)" "None :: string option"]
  note t2 = GetBlocks_spec [of 5 3 example_runtime "\<lambda>len. None"
                               "\<lambda>i n. (Inr () :: string + unit)" "None :: string option"]
  have a: "GetBlocks example_runtime (\<lambda>len. None) (\<lambda>i n. (Inr () :: string + unit))
        (None :: string option) 5 3
       = Some (Inr (None, Some (Errorf ''invalid range'')))"
    using t1 lt by blast
  have "GetBlocks example_runtime (\<lambda>len. None) (\<lambda>i n. (Inr () :: string + unit))
        (None :: string option) 3 5
       = Some (GetBlocksByNumbers (\<lambda>len. None) (\<lambda>i n. (Inr () :: string + unit))
                 (None :: string option) (map word_of_nat [unat (3::64 word) ..< Suc (unat (5::64 word))]))"
    using t2 le nm fits small alloc by blast
  then have b: "GetBlocks example_runtime (\<lambda>len. None) (\<lambda>i n. (Inr () :: string + unit))
        (None :: string option) 3 5
       = Some (Inr (Some [\<lparr>Number = 3, Block = Some (), Error = None\<rparr>,
                          \<lparr>Number = 4, Block = Some (), Error = None\<rparr>,
                          \<lparr>Number = 5, Block = Some (), Error = None\<rparr>], None))"
    by (simp add: up GetBlocksByNumbers_def block_result_def enumerate_eq_zip upt_rec)
  from lt nm small alloc a b show ?thesis by blast
qed

end
